theory Spec2Isabelle
  imports Complex_Main
begin

section \<open>Baseball trajectory engine: the physics module\<close>

text \<open>
  The module \<^verbatim>\<open>utils/physics\<close> (first listing of \<^verbatim>\<open>src/unnamed/part_000\<close>) exports
  \<^verbatim>\<open>calculateTrajectory\<close>, \<^verbatim>\<open>calculatePitchTrajectory\<close> and \<^verbatim>\<open>solvePitchAngles\<close>.

  Numbers. A JavaScript \<^verbatim>\<open>number\<close> is modelled as a \<^typ>\<open>real\<close>: arithmetic is exact,
  inputs are finite, and rounding and overflow are outside the model.
  \<^verbatim>\<open>Math.sqrt\<close>, \<^verbatim>\<open>Math.sin\<close>, \<^verbatim>\<open>Math.cos\<close>, \<^verbatim>\<open>Math.PI\<close> are \<^const>\<open>sqrt\<close>, \<^const>\<open>sin\<close>,
  \<^const>\<open>cos\<close>, \<^const>\<open>pi\<close>. Two divisions of the source can have a zero divisor on real
  inputs, and HOL's \<open>x / 0 = 0\<close> is not what JavaScript computes there, so both are
  written out: the denominator of \<^verbatim>\<open>getLineIntersection\<close> (the quotients are infinite
  or NaN, every comparison fails, the function returns \<^verbatim>\<open>null\<close>) and \<^verbatim>\<open>vTotal\<close> in the
  pitch loop (\<^verbatim>\<open>0 / 0\<close> is NaN and spreads to every coordinate).
\<close>

subsection \<open>Constants\<close>

definition GRAVITY :: real where "GRAVITY = 9.81"
definition AIR_DENSITY :: real where "AIR_DENSITY = 1.225"
definition BALL_MASS :: real where "BALL_MASS = 0.145"
definition BALL_RADIUS :: real where "BALL_RADIUS = 0.037"
definition BALL_AREA :: real where "BALL_AREA = pi * BALL_RADIUS ^ 2"
definition DRAG_COEFFICIENT :: real where "DRAG_COEFFICIENT = 0.30"
definition BATTING_LIFT_COEFFICIENT :: real where "BATTING_LIFT_COEFFICIENT = 0.15"
definition MOUND_DISTANCE :: real where "MOUND_DISTANCE = 18.44"
definition CATCHER_DEPTH :: real where "CATCHER_DEPTH = 1.5"
definition WALL_HEIGHT :: real where "WALL_HEIGHT = 4.0"
definition COR_GROUND :: real where "COR_GROUND = 0.45"
definition COR_WALL :: real where "COR_WALL = 0.7"
definition STOP_VELOCITY :: real where "STOP_VELOCITY = 0.1"
definition FRICTION_BOUNCE :: real where "FRICTION_BOUNCE = 0.92"
definition MU_ROLLING :: real where "MU_ROLLING = 0.25"

record WallSegment =
  x1 :: real
  z1 :: real
  x2 :: real
  z2 :: real

definition WALL_SEGMENTS :: "WallSegment list" where
  "WALL_SEGMENTS =
    [\<lparr>x1 = -70.71, z1 = 70.71, x2 = -42.1, z2 = 101.6\<rparr>,
     \<lparr>x1 = -42.1, z1 = 101.6, x2 = 0, z2 = 122\<rparr>,
     \<lparr>x1 = 0, z1 = 122, x2 = 42.1, z2 = 101.6\<rparr>,
     \<lparr>x1 = 42.1, z1 = 101.6, x2 = 70.71, z2 = 70.71\<rparr>]"

subsection \<open>Batted ball: \<^verbatim>\<open>calculateTrajectory\<close>\<close>

text \<open>\<^verbatim>\<open>Point3D\<close>: the fields \<^verbatim>\<open>x, y, z, t\<close> of a sample.\<close>

record Point3D =
  px :: real
  py :: real
  pz :: real
  pt :: real

text \<open>The local variables of \<^verbatim>\<open>calculateTrajectory\<close> that the loop updates.\<close>

record bstate =
  b_x :: real
  b_y :: real
  b_z :: real
  b_t :: real
  b_vx :: real
  b_vy :: real
  b_vz :: real
  b_points :: "Point3D list"
  b_maxHeight :: real
  b_carryDistance :: real
  b_landingPosition :: "(real \<times> real \<times> real) option"
  b_hasHitGround :: bool

record BatResult =
  points :: "Point3D list"
  distance :: real
  maxHeight :: real
  hangTime :: real
  landingPosition :: "(real \<times> real \<times> real) option"

definition dt_bat :: real where "dt_bat = 0.01"
definition maxTime :: real where "maxTime = 20"

text \<open>
  \<^verbatim>\<open>getLineIntersection\<close>. With a zero denominator \<^verbatim>\<open>s\<close> and \<^verbatim>\<open>t\<close> are infinite or
  NaN in the source, the range test fails and \<^verbatim>\<open>null\<close> is returned.
\<close>

definition getLineIntersection ::
  "real \<Rightarrow> real \<Rightarrow> real \<Rightarrow> real \<Rightarrow> real \<Rightarrow> real \<Rightarrow> real \<Rightarrow> real \<Rightarrow> (real \<times> real) option" where
  "getLineIntersection p0_x p0_y p1_x p1_y p2_x p2_y p3_x p3_y =
    (let s1_x = p1_x - p0_x;
         s1_y = p1_y - p0_y;
         s2_x = p3_x - p2_x;
         s2_y = p3_y - p2_y;
         den = - s2_x * s1_y + s1_x * s2_y
     in if den = 0 then None
        else
          (let s = (- s1_y * (p0_x - p2_x) + s1_x * (p0_y - p2_y)) / den;
               t = (s2_x * (p0_y - p2_y) - s2_y * (p0_x - p2_x)) / den
           in if s \<ge> 0 \<and> s \<le> 1 \<and> t \<ge> 0 \<and> t \<le> 1
              then Some (p0_x + t * s1_x, p0_y + t * s1_y)
              else None))"

text \<open>Lines 85-114: the acceleration \<^verbatim>\<open>(ax, ay, az)\<close> from gravity, drag and lift.\<close>

definition bat_accel :: "real \<Rightarrow> real \<Rightarrow> bstate \<Rightarrow> real \<times> real \<times> real" where
  "bat_accel wx wz s =
    (let vrx = b_vx s - wx;
         vry = b_vy s - 0;
         vrz = b_vz s - wz;
         vRelTotal = sqrt (vrx * vrx + vry * vry + vrz * vrz)
     in if vRelTotal > 0.1 then
          (let Fd = 0.5 * AIR_DENSITY * vRelTotal ^ 2 * DRAG_COEFFICIENT * BALL_AREA;
               ad = Fd / BALL_MASS;
               axDrag = - ad * (vrx / vRelTotal);
               ayDrag = - ad * (vry / vRelTotal);
               azDrag = - ad * (vrz / vRelTotal);
               ayLift =
                 (if b_y s > 0.05 then
                    (let Fl = 0.5 * AIR_DENSITY * vRelTotal ^ 2 * BATTING_LIFT_COEFFICIENT * BALL_AREA;
                         al = Fl / BALL_MASS;
                         vHorizontal = sqrt (b_vx s * b_vx s + b_vz s * b_vz s);
                         vTotal = sqrt (vHorizontal * vHorizontal + b_vy s * b_vy s)
                     in if vTotal > 0 then al * (vHorizontal / vTotal) else 0)
                  else 0)
           in (axDrag + 0, - GRAVITY + ayDrag + ayLift, azDrag))
        else (0, - GRAVITY, 0))"

text \<open>Lines 82-83 and 116-123: record the sample, then one explicit Euler step.\<close>

definition bat_integrate :: "real \<Rightarrow> real \<Rightarrow> bstate \<Rightarrow> bstate" where
  "bat_integrate wx wz s =
    (case bat_accel wx wz s of (ax, ay, az) \<Rightarrow>
      (let vx = b_vx s + ax * dt_bat;
           vy = b_vy s + ay * dt_bat;
           vz = b_vz s + az * dt_bat
       in s\<lparr>b_points := b_points s @ [\<lparr>px = b_x s, py = b_y s, pz = b_z s, pt = b_t s\<rparr>],
            b_maxHeight := (if b_y s > b_maxHeight s then b_y s else b_maxHeight s),
            b_vx := vx, b_vy := vy, b_vz := vz,
            b_x := b_x s + vx * dt_bat,
            b_y := b_y s + vy * dt_bat,
            b_z := b_z s + vz * dt_bat,
            b_t := b_t s + dt_bat\<rparr>))"

text \<open>Lines 132-144: the unit normal of a wall segment, turned towards the origin.\<close>

definition wall_normal :: "WallSegment \<Rightarrow> real \<times> real" where
  "wall_normal seg =
    (let dx = x2 seg - x1 seg;
         dz = z2 seg - z1 seg;
         len = sqrt (dx * dx + dz * dz);
         midX = (x1 seg + x2 seg) / 2;
         midZ = (z1 seg + z2 seg) / 2;
         nx = - dz / len;
         nz = dx / len
     in if nx * midX + nz * midZ > 0 then (- nx, - nz) else (nx, nz))"

text \<open>Lines 146-153: the reflection at the intersection point \<open>(ix, iz)\<close>.\<close>

definition wall_reflect :: "WallSegment \<Rightarrow> real \<times> real \<Rightarrow> bstate \<Rightarrow> bstate" where
  "wall_reflect seg i s =
    (case wall_normal seg of (nx, nz) \<Rightarrow>
      (let vDotN = b_vx s * nx + b_vz s * nz
       in if vDotN < 0 then
            s\<lparr>b_vx := (b_vx s - 2 * vDotN * nx) * COR_WALL,
              b_vz := (b_vz s - 2 * vDotN * nz) * COR_WALL,
              b_vy := b_vy s * 0.8,
              b_x := fst i + nx * 0.2,
              b_z := snd i + nz * 0.2\<rparr>
          else s))"

text \<open>Lines 129-156: the \<^verbatim>\<open>for\<close> loop over the segments, left at the first intersection.\<close>

fun wall_loop :: "real \<Rightarrow> real \<Rightarrow> WallSegment list \<Rightarrow> bstate \<Rightarrow> bstate" where
  "wall_loop prevX prevZ [] s = s"
| "wall_loop prevX prevZ (seg # segs) s =
    (case getLineIntersection prevX prevZ (b_x s) (b_z s) (x1 seg) (z1 seg) (x2 seg) (z2 seg) of
       Some i \<Rightarrow> wall_reflect seg i s
     | None \<Rightarrow> wall_loop prevX prevZ segs s)"

definition wall_collision :: "real \<Rightarrow> real \<Rightarrow> bstate \<Rightarrow> bstate" where
  "wall_collision prevX prevZ s =
    (if b_z s > 60 \<and> b_y s \<ge> 0 \<and> b_y s \<le> WALL_HEIGHT
     then wall_loop prevX prevZ WALL_SEGMENTS s else s)"

text \<open>
  Lines 160-193: the ground. The second component is \<open>True\<close> when the source
  executes \<^verbatim>\<open>break\<close>.
\<close>

definition ground_collision :: "bstate \<Rightarrow> bstate \<times> bool" where
  "ground_collision s0 =
    (if b_y s0 \<le> 0 then
       (let s1 = s0\<lparr>b_y := 0\<rparr>;
            s = (if \<not> b_hasHitGround s1
                 then s1\<lparr>b_hasHitGround := True,
                         b_carryDistance := sqrt (b_x s1 * b_x s1 + b_z s1 * b_z s1),
                         b_landingPosition := Some (b_x s1, 0, b_z s1)\<rparr>
                 else s1)
        in if \<bar>b_vy s\<bar> < 1.0 then
             (let sr = s\<lparr>b_vy := 0\<rparr>;
                  speedXZ = sqrt (b_vx sr * b_vx sr + b_vz sr * b_vz sr)
              in if speedXZ > 0 then
                   (let deceleration = MU_ROLLING * GRAVITY;
                        speedLoss = deceleration * dt_bat
                    in if speedXZ \<le> speedLoss + STOP_VELOCITY
                       then (sr\<lparr>b_vx := 0, b_vz := 0\<rparr>, True)
                       else
                         (let newSpeed = speedXZ - speedLoss;
                              ratio = newSpeed / speedXZ
                          in (sr\<lparr>b_vx := b_vx sr * ratio, b_vz := b_vz sr * ratio\<rparr>, False)))
                 else (sr, True))
           else
             (s\<lparr>b_vy := - b_vy s * COR_GROUND,
                b_vx := b_vx s * FRICTION_BOUNCE,
                b_vz := b_vz s * FRICTION_BOUNCE\<rparr>, False))
     else (s0, False))"

text \<open>One pass through the body of the \<^verbatim>\<open>while\<close> loop, lines 79-193.\<close>

definition bat_body :: "real \<Rightarrow> real \<Rightarrow> bstate \<Rightarrow> bstate \<times> bool" where
  "bat_body wx wz s =
    ground_collision (wall_collision (b_x s) (b_z s) (bat_integrate wx wz s))"

lemma b_t_wall_reflect: "b_t (wall_reflect seg i s) = b_t s"
  by (simp add: wall_reflect_def Let_def split: prod.splits)

lemma b_t_wall_loop: "b_t (wall_loop prevX prevZ segs s) = b_t s"
  by (induction segs) (simp_all add: b_t_wall_reflect split: option.splits)

lemma b_t_wall_collision: "b_t (wall_collision prevX prevZ s) = b_t s"
  by (simp add: wall_collision_def b_t_wall_loop)

lemma b_t_ground_collision: "b_t (fst (ground_collision s)) = b_t s"
  by (simp add: ground_collision_def Let_def)

lemma b_t_bat_integrate: "b_t (bat_integrate wx wz s) = b_t s + dt_bat"
  by (simp add: bat_integrate_def Let_def split: prod.splits)

lemma b_t_bat_body: "b_t (fst (bat_body wx wz s)) = b_t s + dt_bat"
  by (simp add: bat_body_def b_t_ground_collision b_t_wall_collision b_t_bat_integrate)

text \<open>Each pass advances \<^verbatim>\<open>t\<close> by \<^verbatim>\<open>dt\<close>, so the distance to \<^verbatim>\<open>maxTime\<close> shrinks.\<close>

lemma bat_body_measure:
  assumes "b_t s < maxTime"
  shows "nat \<lceil>(maxTime - b_t (fst (bat_body wx wz s))) * 100\<rceil> < nat \<lceil>(maxTime - b_t s) * 100\<rceil>"
proof -
  define A where "A = (maxTime - b_t s) * 100"
  have eq: "(maxTime - b_t (fst (bat_body wx wz s))) * 100 = A - 1"
    by (simp add: b_t_bat_body dt_bat_def A_def algebra_simps)
  have "0 < A"
    using assms by (simp add: A_def)
  then have "0 < \<lceil>A\<rceil>"
    by simp
  moreover have "\<lceil>A - 1\<rceil> = \<lceil>A\<rceil> - 1"
    by simp
  ultimately have "nat \<lceil>A - 1\<rceil> < nat \<lceil>A\<rceil>"
    by linarith
  then show ?thesis
    by (simp only: eq A_def)
qed

text \<open>The \<^verbatim>\<open>while (t < maxTime)\<close> loop.\<close>

function bat_loop :: "real \<Rightarrow> real \<Rightarrow> bstate \<Rightarrow> bstate" where
  "bat_loop wx wz s =
    (if b_t s < maxTime then
       (case bat_body wx wz s of (s', brk) \<Rightarrow> if brk then s' else bat_loop wx wz s')
     else s)"
  by pat_completeness auto
termination
proof (relation "measure (\<lambda>(wx, wz, s). nat \<lceil>(maxTime - b_t s) * 100\<rceil>)")
  show "wf (measure (\<lambda>(wx, wz, s). nat \<lceil>(maxTime - b_t s) * 100\<rceil>))"
    by simp
next
  fix wx wz :: real and s x :: bstate and y :: bool
  assume "b_t s < maxTime" and "(x, y) = bat_body wx wz s"
  then show "((wx, wz, x), (wx, wz, s)) \<in> measure (\<lambda>(wx, wz, s). nat \<lceil>(maxTime - b_t s) * 100\<rceil>)"
    using bat_body_measure [of s wx wz] by (metis (mono_tags, lifting) fst_conv in_measure prod.case)
qed

text \<open>
  The run of the loop: the variables after each pass through the body, in order. The
  loop returns the last of them (the initial variables when no pass is made).
\<close>

function bat_run :: "real \<Rightarrow> real \<Rightarrow> bstate \<Rightarrow> bstate list" where
  "bat_run wx wz s =
    (if b_t s < maxTime then
       (case bat_body wx wz s of (s', brk) \<Rightarrow> s' # (if brk then [] else bat_run wx wz s'))
     else [])"
  by pat_completeness auto
termination
proof (relation "measure (\<lambda>(wx, wz, s). nat \<lceil>(maxTime - b_t s) * 100\<rceil>)")
  show "wf (measure (\<lambda>(wx, wz, s). nat \<lceil>(maxTime - b_t s) * 100\<rceil>))"
    by simp
next
  fix wx wz :: real and s x :: bstate and y :: bool
  assume "b_t s < maxTime" and "(x, y) = bat_body wx wz s"
  then show "((wx, wz, x), (wx, wz, s)) \<in> measure (\<lambda>(wx, wz, s). nat \<lceil>(maxTime - b_t s) * 100\<rceil>)"
    using bat_body_measure [of s wx wz] by (metis (mono_tags, lifting) fst_conv in_measure prod.case)
qed

definition bat_init :: "real \<Rightarrow> real \<Rightarrow> real \<Rightarrow> bstate" where
  "bat_init velocityKmh launchAngleDeg sprayAngleDeg =
    (let v0 = velocityKmh * (1000 / 3600);
         theta = launchAngleDeg * (pi / 180);
         phi = - sprayAngleDeg * (pi / 180)
     in \<lparr>b_x = 0, b_y = 0.5, b_z = 0, b_t = 0,
         b_vx = v0 * cos theta * sin phi,
         b_vy = v0 * sin theta,
         b_vz = v0 * cos theta * cos phi,
         b_points = [], b_maxHeight = 0.5, b_carryDistance = 0,
         b_landingPosition = None, b_hasHitGround = False\<rparr>)"

definition wind_x :: "real \<Rightarrow> real \<Rightarrow> real" where
  "wind_x windSpeedMs windDirectionDeg = - windSpeedMs * sin (windDirectionDeg * (pi / 180))"

definition wind_z :: "real \<Rightarrow> real \<Rightarrow> real" where
  "wind_z windSpeedMs windDirectionDeg = windSpeedMs * cos (windDirectionDeg * (pi / 180))"

text \<open>The final state of the loop, and the object that lines 196-206 build from it.\<close>

definition bat_final :: "real \<Rightarrow> real \<Rightarrow> real \<Rightarrow> real \<Rightarrow> real \<Rightarrow> bstate" where
  "bat_final velocityKmh launchAngleDeg sprayAngleDeg windSpeedMs windDirectionDeg =
    bat_loop (wind_x windSpeedMs windDirectionDeg) (wind_z windSpeedMs windDirectionDeg)
      (bat_init velocityKmh launchAngleDeg sprayAngleDeg)"

definition calculateTrajectory :: "real \<Rightarrow> real \<Rightarrow> real \<Rightarrow> real \<Rightarrow> real \<Rightarrow> BatResult" where
  "calculateTrajectory velocityKmh launchAngleDeg sprayAngleDeg windSpeedMs windDirectionDeg =
    (let s = bat_final velocityKmh launchAngleDeg sprayAngleDeg windSpeedMs windDirectionDeg
     in \<lparr>points = b_points s,
         distance = (if \<not> b_hasHitGround s then sqrt (b_x s * b_x s + b_z s * b_z s)
                     else b_carryDistance s),
         maxHeight = b_maxHeight s,
         hangTime = b_t s,
         landingPosition = b_landingPosition s\<rparr>)"

subsection \<open>Auxiliary notions for the batted ball\<close>

text \<open>
  The value of \<^verbatim>\<open>distance\<close> that lines 196-202 compute from the variables, the
  horizontal range of a position, and samples that are \<^verbatim>\<open>dt\<close> apart.
\<close>

definition bat_distance :: "bstate \<Rightarrow> real" where
  "bat_distance s =
    (if \<not> b_hasHitGround s then sqrt (b_x s * b_x s + b_z s * b_z s) else b_carryDistance s)"

definition range_xz :: "bstate \<Rightarrow> real" where
  "range_xz s = sqrt (b_x s * b_x s + b_z s * b_z s)"

definition bat_spaced :: "Point3D list \<Rightarrow> bool" where
  "bat_spaced ps = successively (\<lambda>p q. pt q = pt p + dt_bat) ps"

text \<open>
  The horizontal speed; the variables left by a pass in the rolling branch (on the
  ground, no vertical velocity); and the factor of the drag deceleration,
  \<^verbatim>\<open>ad = drag_k * v\<^sup>2\<close> for airspeed \<open>v\<close>.
\<close>

definition speedXZ :: "bstate \<Rightarrow> real" where
  "speedXZ s = sqrt (b_vx s * b_vx s + b_vz s * b_vz s)"


definition drag_k :: real where
  "drag_k = 0.5 * AIR_DENSITY * DRAG_COEFFICIENT * BALL_AREA / BALL_MASS"

text \<open>
  Concrete loop variables: a ball at height 2 m that moved from \<open>(-21.05, 110)\<close> to
  \<open>(-21.05, 113)\<close> at 30 m/s, straight through the midpoint of the second wall segment;
  and a ball rolling at 1 m/s towards centre field.
\<close>

definition wall_ball :: bstate where
  "wall_ball =
    \<lparr>b_x = -21.05, b_y = 2, b_z = 113, b_t = 4, b_vx = 0, b_vy = 0, b_vz = 30,
     b_points = [], b_maxHeight = 2, b_carryDistance = 0,
     b_landingPosition = None, b_hasHitGround = False\<rparr>"

definition left_center :: WallSegment where
  "left_center = \<lparr>x1 = -42.1, z1 = 101.6, x2 = 0, z2 = 122\<rparr>"


subsection \<open>Pitched ball: \<^verbatim>\<open>calculatePitchTrajectory\<close>\<close>

record PitchingParams =
  velocity :: real
  spinRate :: real
  spinDirection :: real
  spinEfficiency :: real
  hAngle :: real
  vAngle :: real
  releaseHeight :: real
  releaseSide :: real
  extension :: real
  targetX :: real
  targetY :: real
  gyroDegree :: real

text \<open>
  A value that is a real number or the NaN that \<^verbatim>\<open>0 / 0\<close> produces. Only the results
  of the pitch functions need it: inside the loop every variable is a real number, and
  the loop is left in the very pass that produces NaN.
\<close>

datatype 'a maybe_nan = Val 'a | NaN

text \<open>A pitch sample \<^verbatim>\<open>{x, y, z, t, breakX, breakY}\<close>.\<close>

record PitchPoint = Point3D +
  breakX :: real
  breakY :: real

text \<open>
  A sample of the returned list: a \<^typ>\<open>PitchPoint\<close>, or the sample whose coordinates
  and breaks are NaN and whose time is the given number.
\<close>

datatype PitchSample = Sample PitchPoint | SampleNaN real

fun sample_t :: "PitchSample \<Rightarrow> real" where
  "sample_t (Sample q) = pt q"
| "sample_t (SampleNaN t) = t"

record pstate =
  p_x :: real
  p_y :: real
  p_z :: real
  p_t :: real
  p_vx :: real
  p_vy :: real
  p_vz :: real
  p_vBreakX :: real
  p_vBreakY :: real
  p_currentBreakX :: real
  p_currentBreakY :: real
  p_points :: "PitchPoint list"
  p_maxHeight :: real
  p_plateCrossing :: "(real \<times> real) option"

text \<open>
  The object returned for a pitch. \<^verbatim>\<open>finalPosition\<close> and \<^verbatim>\<open>plateCrossing\<close> are optional
  in the type \<^verbatim>\<open>TrajectoryResult\<close>, but \<^verbatim>\<open>calculatePitchTrajectory\<close> always sets them.
\<close>

record PitchResult =
  pitch_points :: "PitchSample list"
  pitch_distance :: "real maybe_nan"
  pitch_maxHeight :: real
  pitch_hangTime :: real
  finalPosition :: "(real \<times> real) maybe_nan"
  plateCrossing :: "(real \<times> real) maybe_nan"

definition dt_pitch :: real where "dt_pitch = 0.002"
definition MAX_SIMULATION_TIME :: real where "MAX_SIMULATION_TIME = 5.0"

definition omega :: "PitchingParams \<Rightarrow> real" where
  "omega params =
    (let trueSpin = spinRate params * (spinEfficiency params / 100)
     in (trueSpin * 2 * pi) / 60)"

definition pitch_sample :: "pstate \<Rightarrow> PitchPoint" where
  "pitch_sample s =
    \<lparr>px = p_x s, py = p_y s, pz = p_z s, pt = p_t s,
     breakX = p_currentBreakX s * 100, breakY = p_currentBreakY s * 100\<rparr>"

text \<open>Lines 281-283: record the sample and the maximal height.\<close>

definition pitch_record :: "pstate \<Rightarrow> pstate" where
  "pitch_record s =
    s\<lparr>p_points := p_points s @ [pitch_sample s],
      p_maxHeight := (if p_y s > p_maxHeight s then p_y s else p_maxHeight s)\<rparr>"

text \<open>
  Lines 287-327: forces, break and Euler step. \<open>None\<close> when \<^verbatim>\<open>vTotal\<close> is zero: then
  \<^verbatim>\<open>vx / vTotal\<close> is \<^verbatim>\<open>0 / 0\<close>, and the accelerations, the velocity, the position and
  the breaks all become NaN.
\<close>

definition pitch_advance :: "PitchingParams \<Rightarrow> pstate \<Rightarrow> pstate option" where
  "pitch_advance params s =
    (let vTotal = sqrt (p_vx s * p_vx s + p_vy s * p_vy s + p_vz s * p_vz s)
     in if vTotal = 0 then None
        else
          (let Fd = 0.5 * AIR_DENSITY * vTotal ^ 2 * DRAG_COEFFICIENT * BALL_AREA;
               ad = Fd / BALL_MASS;
               axDrag = - ad * (p_vx s / vTotal);
               ayDrag = - ad * (p_vy s / vTotal);
               azDrag = - ad * (p_vz s / vTotal);
               S = (BALL_RADIUS * omega params) / vTotal;
               Cl = S;
               liftForceMag = 0.5 * AIR_DENSITY * vTotal ^ 2 * BALL_AREA * Cl;
               radAxis = spinDirection params * (pi / 180);
               fMagX = liftForceMag * sin radAxis;
               fMagY = liftForceMag * cos radAxis;
               axMag = fMagX / BALL_MASS;
               ayMag = fMagY / BALL_MASS;
               ax = axDrag + axMag;
               ay = - GRAVITY + ayDrag + ayMag;
               az = azDrag;
               vBreakX = p_vBreakX s + axMag * dt_pitch;
               vBreakY = p_vBreakY s + ayMag * dt_pitch;
               vx = p_vx s + ax * dt_pitch;
               vy = p_vy s + ay * dt_pitch;
               vz = p_vz s + az * dt_pitch
           in Some (s\<lparr>p_vBreakX := vBreakX, p_vBreakY := vBreakY,
                     p_currentBreakX := p_currentBreakX s + vBreakX * dt_pitch,
                     p_currentBreakY := p_currentBreakY s + vBreakY * dt_pitch,
                     p_vx := vx, p_vy := vy, p_vz := vz,
                     p_x := p_x s + vx * dt_pitch,
                     p_y := p_y s + vy * dt_pitch,
                     p_z := p_z s + vz * dt_pitch,
                     p_t := p_t s + dt_pitch\<rparr>)))"

text \<open>
  Lines 276-278 and 287-335: one step from the variables \<open>s\<close>, whose position is
  \<^verbatim>\<open>(prevX, prevY, prevZ)\<close>, followed by the plate-crossing test.
\<close>

definition pitch_step :: "PitchingParams \<Rightarrow> pstate \<Rightarrow> pstate option" where
  "pitch_step params s =
    (case pitch_advance params s of
       None \<Rightarrow> None
     | Some m \<Rightarrow>
         Some (if p_z s \<ge> 0 \<and> p_z m < 0 then
                 (let fraction = (0 - p_z s) / (p_z m - p_z s)
                  in m\<lparr>p_plateCrossing :=
                        Some (p_x s + (p_x m - p_x s) * fraction,
                              p_y s + (p_y m - p_y s) * fraction)\<rparr>)
               else m))"

text \<open>
  How the \<^verbatim>\<open>while (z > -CATCHER_DEPTH)\<close> loop is left: \<open>Exited s\<close> with the variables
  \<open>s\<close>, by the loop test or a \<^verbatim>\<open>break\<close>; or \<open>WentNaN s\<close> when the pass that started from
  \<open>s\<close> produced NaN. In that case \<^verbatim>\<open>z\<close> is NaN, neither \<^verbatim>\<open>z < 0\<close> nor \<^verbatim>\<open>z > -1.5\<close> holds,
  and the loop ends with \<^verbatim>\<open>t\<close> advanced once more and \<^verbatim>\<open>points\<close>, \<^verbatim>\<open>maxHeight\<close> and
  \<^verbatim>\<open>plateCrossing\<close> as in \<open>s\<close>.
\<close>

datatype loop_exit = Exited pstate | WentNaN pstate

lemma p_t_pitch_record: "p_t (pitch_record s) = p_t s"
  by (simp add: pitch_record_def)

lemma p_t_pitch_advance: "pitch_advance params s = Some s' \<Longrightarrow> p_t s' = p_t s + dt_pitch"
  by (auto simp add: pitch_advance_def Let_def split: if_splits)

lemma p_t_pitch_step: "pitch_step params s = Some s' \<Longrightarrow> p_t s' = p_t s + dt_pitch"
  by (auto simp add: pitch_step_def Let_def p_t_pitch_advance split: option.splits if_splits)

lemma pitch_step_measure:
  assumes le: "\<not> MAX_SIMULATION_TIME < p_t s" and step: "pitch_step params (pitch_record s) = Some s'"
  shows "nat \<lceil>(MAX_SIMULATION_TIME + dt_pitch - p_t s') * 500\<rceil>
    < nat \<lceil>(MAX_SIMULATION_TIME + dt_pitch - p_t s) * 500\<rceil>"
proof -
  define A where "A = (MAX_SIMULATION_TIME + dt_pitch - p_t s) * 500"
  have "p_t s' = p_t s + dt_pitch"
    using p_t_pitch_step [OF step] by (simp add: p_t_pitch_record)
  then have eq: "(MAX_SIMULATION_TIME + dt_pitch - p_t s') * 500 = A - 1"
    by (simp add: dt_pitch_def A_def algebra_simps)
  have "0 < A"
    using le by (simp add: A_def dt_pitch_def)
  then have "0 < \<lceil>A\<rceil>"
    by simp
  moreover have "\<lceil>A - 1\<rceil> = \<lceil>A\<rceil> - 1"
    by simp
  ultimately have "nat \<lceil>A - 1\<rceil> < nat \<lceil>A\<rceil>"
    by linarith
  then show ?thesis
    by (simp only: eq A_def)
qed

function pitch_loop :: "PitchingParams \<Rightarrow> pstate \<Rightarrow> loop_exit" where
  "pitch_loop params s =
    (if p_z s > - CATCHER_DEPTH then
       (let s1 = pitch_record s
        in if p_t s1 > MAX_SIMULATION_TIME then Exited s1
           else if p_y s1 \<le> 0 then Exited s1
           else (case pitch_step params s1 of
                   None \<Rightarrow> WentNaN s1
                 | Some s2 \<Rightarrow> pitch_loop params s2))
     else Exited s)"
  by pat_completeness auto
termination
proof (relation "measure (\<lambda>(params, s). nat \<lceil>(MAX_SIMULATION_TIME + dt_pitch - p_t s) * 500\<rceil>)")
  show "wf (measure (\<lambda>(params, s). nat \<lceil>(MAX_SIMULATION_TIME + dt_pitch - p_t s) * 500\<rceil>))"
    by simp
next
  fix params :: PitchingParams and s x x2 :: pstate
  assume "x = pitch_record s" and "\<not> MAX_SIMULATION_TIME < p_t x" and "pitch_step params x = Some x2"
  then show "((params, x2), (params, s))
      \<in> measure (\<lambda>(params, s). nat \<lceil>(MAX_SIMULATION_TIME + dt_pitch - p_t s) * 500\<rceil>)"
    using pitch_step_measure [of s params x2] by (simp add: p_t_pitch_record)
qed

text \<open>
  The run of the pitch loop: for each pass that reaches line 327, the variables
  before the step (after the sample was recorded) and after it.
\<close>

function pitch_run :: "PitchingParams \<Rightarrow> pstate \<Rightarrow> (pstate \<times> pstate) list" where
  "pitch_run params s =
    (if p_z s > - CATCHER_DEPTH then
       (let s1 = pitch_record s
        in if p_t s1 > MAX_SIMULATION_TIME then []
           else if p_y s1 \<le> 0 then []
           else (case pitch_step params s1 of
                   None \<Rightarrow> []
                 | Some s2 \<Rightarrow> (s1, s2) # pitch_run params s2))
     else [])"
  by pat_completeness auto
termination
proof (relation "measure (\<lambda>(params, s). nat \<lceil>(MAX_SIMULATION_TIME + dt_pitch - p_t s) * 500\<rceil>)")
  show "wf (measure (\<lambda>(params, s). nat \<lceil>(MAX_SIMULATION_TIME + dt_pitch - p_t s) * 500\<rceil>))"
    by simp
next
  fix params :: PitchingParams and s x x2 :: pstate
  assume "x = pitch_record s" and "\<not> MAX_SIMULATION_TIME < p_t x" and "pitch_step params x = Some x2"
  then show "((params, x2), (params, s))
      \<in> measure (\<lambda>(params, s). nat \<lceil>(MAX_SIMULATION_TIME + dt_pitch - p_t s) * 500\<rceil>)"
    using pitch_step_measure [of s params x2] by (simp add: p_t_pitch_record)
qed

text \<open>Lines 242-273: the variables before the loop.\<close>

definition pitch_init :: "PitchingParams \<Rightarrow> pstate" where
  "pitch_init params =
    (let v0 = velocity params * (1000 / 3600);
         extensionM = extension params / 100;
         sideM = releaseSide params / 100;
         heightM = releaseHeight params;
         startZ = MOUND_DISTANCE - extensionM;
         hRad = hAngle params * (pi / 180);
         vRad = vAngle params * (pi / 180)
     in \<lparr>p_x = sideM, p_y = heightM, p_z = startZ, p_t = 0,
         p_vx = v0 * sin hRad * cos vRad,
         p_vy = v0 * sin vRad,
         p_vz = - v0 * cos hRad * cos vRad,
         p_vBreakX = 0, p_vBreakY = 0, p_currentBreakX = 0, p_currentBreakY = 0,
         p_points = [], p_maxHeight = heightM, p_plateCrossing = None\<rparr>)"

text \<open>Lines 338-347: the last sample and the returned object.\<close>

definition pitch_result :: "loop_exit \<Rightarrow> PitchResult" where
  "pitch_result e =
    (case e of
       Exited s \<Rightarrow>
         \<lparr>pitch_points = map Sample (p_points s) @ [Sample (pitch_sample s)],
          pitch_distance = Val (MOUND_DISTANCE - p_z s),
          pitch_maxHeight = p_maxHeight s,
          pitch_hangTime = p_t s,
          finalPosition = Val (p_x s, p_y s),
          plateCrossing = Val (case p_plateCrossing s of Some c \<Rightarrow> c | None \<Rightarrow> (p_x s, p_y s))\<rparr>
     | WentNaN s \<Rightarrow>
         \<lparr>pitch_points = map Sample (p_points s) @ [SampleNaN (p_t s + dt_pitch)],
          pitch_distance = NaN,
          pitch_maxHeight = p_maxHeight s,
          pitch_hangTime = p_t s + dt_pitch,
          finalPosition = NaN,
          plateCrossing = (case p_plateCrossing s of Some c \<Rightarrow> Val c | None \<Rightarrow> NaN)\<rparr>)"

definition calculatePitchTrajectory :: "PitchingParams \<Rightarrow> PitchResult" where
  "calculatePitchTrajectory params =
    (if velocity params \<le> 0.1 then
       \<lparr>pitch_points =
          [Sample \<lparr>px = releaseSide params / 100, py = releaseHeight params,
                   pz = MOUND_DISTANCE - extension params / 100, pt = 0,
                   breakX = 0, breakY = 0\<rparr>],
        pitch_distance = Val 0,
        pitch_maxHeight = releaseHeight params,
        pitch_hangTime = 0,
        finalPosition = Val (releaseSide params / 100, releaseHeight params),
        plateCrossing = Val (releaseSide params / 100, releaseHeight params)\<rparr>
     else pitch_result (pitch_loop params (pitch_init params)))"

subsection \<open>Angle solver: \<^verbatim>\<open>solvePitchAngles\<close>\<close>

text \<open>
  \<^verbatim>\<open>Math.atan2(y, x)\<close> on real arguments. Signed zeros are not modelled: for \<open>y = 0\<close>
  and \<open>x < 0\<close> the value is \<open>pi\<close>, as JavaScript gives for \<^verbatim>\<open>+0\<close>.
\<close>

definition atan2 :: "real \<Rightarrow> real \<Rightarrow> real" where
  "atan2 y x =
    (if x > 0 then arctan (y / x)
     else if x < 0 then (if y \<ge> 0 then arctan (y / x) + pi else arctan (y / x) - pi)
     else if y > 0 then pi / 2
     else if y < 0 then - pi / 2
     else 0)"

text \<open>
  The \<^verbatim>\<open>for (let i = 0; i < 10; i++)\<close> loop of lines 363-383, started from counter \<open>i\<close>
  and angles \<open>(hA, vA)\<close>. \<^verbatim>\<open>result.plateCrossing\<close> is always an object, so
  \<^verbatim>\<open>crossing\<close> is \<^verbatim>\<open>result.plateCrossing\<close> and \<^verbatim>\<open>if (!crossing) break\<close> never fires. When
  the crossing is NaN, both errors are NaN, the test fails, both angles become NaN and
  stay NaN through the remaining passes: the function returns NaN angles.
\<close>

function solve_loop ::
  "PitchingParams \<Rightarrow> real \<Rightarrow> real \<Rightarrow> nat \<Rightarrow> real \<times> real \<Rightarrow> (real \<times> real) maybe_nan" where
  "solve_loop params tX tY i (hA, vA) =
    (if i < 10 then
       (let currentParams = params\<lparr>hAngle := hA, vAngle := vA\<rparr>;
            result = calculatePitchTrajectory currentParams
        in case plateCrossing result of
             NaN \<Rightarrow> NaN
           | Val (actualX, actualY) \<Rightarrow>
               (let errorX = tX - actualX;
                    errorY = tY - actualY
                in if \<bar>errorX\<bar> < 0.0005 \<and> \<bar>errorY\<bar> < 0.0005 then Val (hA, vA)
                   else
                     (let gain = 2.5
                      in solve_loop params tX tY (i + 1) (hA + errorX * gain, vA + errorY * gain))))
     else Val (hA, vA))"
  by pat_completeness auto
termination
  by (relation "measure (\<lambda>(params, tX, tY, i, a). 10 - i)") auto

definition solve_init :: "PitchingParams \<Rightarrow> real \<Rightarrow> real \<Rightarrow> real \<times> real" where
  "solve_init params tX tY =
    (let distZ = 18.44 - (extension params / 100);
         relX = releaseSide params / 100;
         relY = releaseHeight params
     in (atan2 (tX - relX) distZ * (180 / pi), atan2 (tY - relY) distZ * (180 / pi)))"

definition solvePitchAngles :: "PitchingParams \<Rightarrow> real \<Rightarrow> real \<Rightarrow> (real \<times> real) maybe_nan" where
  "solvePitchAngles params tX tY =
    (if velocity params \<le> 0.1 then Val (hAngle params, vAngle params)
     else solve_loop params tX tY 0 (solve_init params tX tY))"

text \<open>
  The number of calls of \<^verbatim>\<open>calculatePitchTrajectory\<close> that the loop of the solver makes
  from counter \<open>i\<close>. Once a crossing is NaN the angles are NaN, the convergence test
  fails in every later pass, and all remaining passes make their call.
\<close>

function solve_calls :: "PitchingParams \<Rightarrow> real \<Rightarrow> real \<Rightarrow> nat \<Rightarrow> real \<times> real \<Rightarrow> nat" where
  "solve_calls params tX tY i (hA, vA) =
    (if i < 10 then
       (case plateCrossing (calculatePitchTrajectory (params\<lparr>hAngle := hA, vAngle := vA\<rparr>)) of
          NaN \<Rightarrow> 10 - i
        | Val (actualX, actualY) \<Rightarrow>
            if \<bar>tX - actualX\<bar> < 0.0005 \<and> \<bar>tY - actualY\<bar> < 0.0005 then 1
            else 1 + solve_calls params tX tY (i + 1)
                       (hA + (tX - actualX) * 2.5, vA + (tY - actualY) * 2.5))
     else 0)"
  by pat_completeness auto
termination
  by (relation "measure (\<lambda>(params, tX, tY, i, a). 10 - i)") auto

definition integrator_calls :: "PitchingParams \<Rightarrow> real \<Rightarrow> real \<Rightarrow> nat" where
  "integrator_calls params tX tY =
    (if velocity params \<le> 0.1 then 0
     else solve_calls params tX tY 0 (solve_init params tX tY))"

subsection \<open>Steps of a pitch and plate crossings\<close>

text \<open>
  The steps that a call of \<^verbatim>\<open>calculatePitchTrajectory\<close> executes, each as the pair of
  the variables before and after it; the test of line 329 on such a pair; and the
  point that lines 330-334 compute from it.
\<close>

definition pitch_steps :: "PitchingParams \<Rightarrow> (pstate \<times> pstate) list" where
  "pitch_steps params =
    (if velocity params \<le> 0.1 then [] else pitch_run params (pitch_init params))"

definition crossed :: "pstate \<times> pstate \<Rightarrow> bool" where
  "crossed ab = (p_z (fst ab) \<ge> 0 \<and> p_z (snd ab) < 0)"

definition interpolate :: "pstate \<times> pstate \<Rightarrow> real \<times> real" where
  "interpolate ab =
    (let fraction = (0 - p_z (fst ab)) / (p_z (snd ab) - p_z (fst ab))
     in (p_x (fst ab) + (p_x (snd ab) - p_x (fst ab)) * fraction,
         p_y (fst ab) + (p_y (snd ab) - p_y (fst ab)) * fraction))"

text \<open>The \<^verbatim>\<open>{x, y}\<close> of a returned sample.\<close>

fun sample_xy :: "PitchSample \<Rightarrow> (real \<times> real) maybe_nan" where
  "sample_xy (Sample q) = Val (px q, py q)"
| "sample_xy (SampleNaN t) = NaN"

fun exit_state :: "loop_exit \<Rightarrow> pstate" where
  "exit_state (Exited s) = s"
| "exit_state (WentNaN s) = s"

text \<open>Samples of a pitch that are \<^verbatim>\<open>dt\<close> apart.\<close>

definition pitch_spaced :: "PitchSample list \<Rightarrow> bool" where
  "pitch_spaced ps = successively (\<lambda>a b. sample_t b = sample_t a + dt_pitch) ps"

text \<open>
  How a pitch loop that keeps the invariant \<open>I\<close> at its head can end: by the loop
  test, by a \<^verbatim>\<open>break\<close> right after recording a sample, or by NaN.
\<close>

definition pitch_exit_inv :: "(pstate \<Rightarrow> bool) \<Rightarrow> loop_exit \<Rightarrow> bool" where
  "pitch_exit_inv I e =
    (case e of
       Exited f \<Rightarrow>
         (I f \<and> \<not> p_z f > - CATCHER_DEPTH) \<or>
         (\<exists>u. I u \<and> f = pitch_record u \<and> p_z u > - CATCHER_DEPTH \<and>
               (p_t u > MAX_SIMULATION_TIME \<or> p_y u \<le> 0))
     | WentNaN f \<Rightarrow>
         (\<exists>u. I u \<and> f = pitch_record u \<and> p_z u > - CATCHER_DEPTH \<and>
               \<not> p_t u > MAX_SIMULATION_TIME \<and> \<not> p_y u \<le> 0))"

text \<open>
  The reading of lines 329-335 in which the crossing is taken once, at the first step
  where \<open>z\<close> goes from at least 0 to below 0, to be compared with what the code returns.
\<close>

definition crossing_is_first :: "PitchingParams \<Rightarrow> bool" where
  "crossing_is_first params =
    (plateCrossing (calculatePitchTrajectory params) =
      (case filter crossed (pitch_steps params) of
         [] \<Rightarrow> sample_xy (last (pitch_points (calculatePitchTrajectory params)))
       | c # cs \<Rightarrow> Val (interpolate c)))"

text \<open>
  A pitch released over the plate at \<open>10\<^sup>6\<close> m/s, almost sideways, without spin. The drag
  of one Euler step exceeds the velocity, so the velocity changes sign and grows at
  every pass, and \<open>z\<close> goes below 0, back above 0, and below 0 again.
\<close>

definition zigzag_pitch :: PitchingParams where
  "zigzag_pitch =
    \<lparr>velocity = 3600000, spinRate = 0, spinDirection = 0, spinEfficiency = 100,
     hAngle = 90.001, vAngle = 0, releaseHeight = 0.5, releaseSide = 0,
     extension = 1844, targetX = 0, targetY = 0, gyroDegree = 0\<rparr>"

subsection \<open>Round trip through the solver\<close>













text \<open>The initial pitching parameters of \<^verbatim>\<open>App.tsx\<close>, used as a concrete input.\<close>

definition default_pitch :: PitchingParams where
  "default_pitch =
    \<lparr>velocity = 145.1, spinRate = 2175, spinDirection = 38, spinEfficiency = 89.3,
     hAngle = 2.2, vAngle = -2.3, releaseHeight = 1.8, releaseSide = 50.5,
     extension = 182.9, targetX = 0, targetY = 0.76, gyroDegree = 26.7\<rparr>"

section \<open>Basic facts\<close>

subsection \<open>The batting loop\<close>

lemma wall_reflect_keeps:
  "b_points (wall_reflect seg i s) = b_points s"
  "b_y (wall_reflect seg i s) = b_y s"
  "b_hasHitGround (wall_reflect seg i s) = b_hasHitGround s"
  "b_carryDistance (wall_reflect seg i s) = b_carryDistance s"
  by (simp_all add: wall_reflect_def Let_def split: prod.splits)

lemma wall_loop_keeps:
  "b_points (wall_loop prevX prevZ segs s) = b_points s"
  "b_y (wall_loop prevX prevZ segs s) = b_y s"
  "b_hasHitGround (wall_loop prevX prevZ segs s) = b_hasHitGround s"
  "b_carryDistance (wall_loop prevX prevZ segs s) = b_carryDistance s"
  by (induction segs; simp add: wall_reflect_keeps split: option.splits)+

lemma wall_collision_keeps:
  "b_points (wall_collision prevX prevZ s) = b_points s"
  "b_y (wall_collision prevX prevZ s) = b_y s"
  "b_hasHitGround (wall_collision prevX prevZ s) = b_hasHitGround s"
  "b_carryDistance (wall_collision prevX prevZ s) = b_carryDistance s"
  by (simp_all add: wall_collision_def wall_loop_keeps)

lemma ground_collision_fields:
  "b_points (fst (ground_collision s)) = b_points s"
  "b_x (fst (ground_collision s)) = b_x s"
  "b_z (fst (ground_collision s)) = b_z s"
  "b_y (fst (ground_collision s)) = (if b_y s \<le> 0 then 0 else b_y s)"
  "b_hasHitGround (fst (ground_collision s)) = (b_hasHitGround s \<or> b_y s \<le> 0)"
  "b_carryDistance (fst (ground_collision s)) =
     (if b_y s \<le> 0 \<and> \<not> b_hasHitGround s then sqrt (b_x s * b_x s + b_z s * b_z s)
      else b_carryDistance s)"
  by (simp_all add: ground_collision_def Let_def)

lemma ground_collision_break: "snd (ground_collision s) \<Longrightarrow> b_y s \<le> 0"
  by (simp add: ground_collision_def Let_def split: if_splits)

lemma bat_integrate_points:
  "b_points (bat_integrate wx wz s) =
     b_points s @ [\<lparr>px = b_x s, py = b_y s, pz = b_z s, pt = b_t s\<rparr>]"
  by (simp add: bat_integrate_def Let_def split: prod.splits)

lemma bat_integrate_keeps:
  "b_hasHitGround (bat_integrate wx wz s) = b_hasHitGround s"
  "b_carryDistance (bat_integrate wx wz s) = b_carryDistance s"
  by (simp_all add: bat_integrate_def Let_def split: prod.splits)

lemma bat_body_points:
  "b_points (fst (bat_body wx wz s)) =
     b_points s @ [\<lparr>px = b_x s, py = b_y s, pz = b_z s, pt = b_t s\<rparr>]"
  by (simp add: bat_body_def ground_collision_fields wall_collision_keeps bat_integrate_points)

lemma bat_body_y: "0 \<le> b_y (fst (bat_body wx wz s))"
  by (simp add: bat_body_def ground_collision_fields)

lemma bat_init_fields:
  "b_y (bat_init v la sa) = 0.5" "b_t (bat_init v la sa) = 0" "b_points (bat_init v la sa) = []"
  "b_hasHitGround (bat_init v la sa) = False" "b_x (bat_init v la sa) = 0" "b_z (bat_init v la sa) = 0"
  by (simp_all add: bat_init_def Let_def)

lemma bat_loop_step:
  "b_t s < maxTime \<Longrightarrow> bat_body wx wz s = (s', brk) \<Longrightarrow>
    bat_loop wx wz s = (if brk then s' else bat_loop wx wz s')"
  by simp

lemma bat_loop_stop: "\<not> b_t s < maxTime \<Longrightarrow> bat_loop wx wz s = s"
  by simp

lemma bat_run_step:
  "b_t s < maxTime \<Longrightarrow> bat_body wx wz s = (s', brk) \<Longrightarrow>
    bat_run wx wz s = s' # (if brk then [] else bat_run wx wz s')"
  by simp

lemma bat_run_stop: "\<not> b_t s < maxTime \<Longrightarrow> bat_run wx wz s = []"
  by simp

declare bat_loop.simps [simp del] bat_run.simps [simp del]

lemma bat_loop_invariant:
  assumes "I s"
    and step: "\<And>u. I u \<Longrightarrow> b_t u < maxTime \<Longrightarrow> I (fst (bat_body wx wz u))"
  shows "I (bat_loop wx wz s)"
  using assms
proof (induction wx wz s rule: bat_loop.induct)
  case (1 wx wz s)
  show ?case
  proof (cases "b_t s < maxTime")
    case False
    then show ?thesis using "1.prems" by (simp add: bat_loop_stop)
  next
    case True
    obtain s' brk where body: "bat_body wx wz s = (s', brk)"
      by (cases "bat_body wx wz s")
    have I': "I s'"
      using "1.prems"(2) [OF "1.prems"(1) True] body by simp
    show ?thesis
    proof (cases brk)
      case True
      with bat_loop_step [OF \<open>b_t s < maxTime\<close> body] I' show ?thesis by simp
    next
      case False
      have "I (bat_loop wx wz s')"
        using "1.IH" [OF \<open>b_t s < maxTime\<close> body [symmetric] False I' "1.prems"(2)] .
      with bat_loop_step [OF \<open>b_t s < maxTime\<close> body] False show ?thesis by simp
    qed
  qed
qed

lemma bat_loop_points_nonempty:
  assumes "b_t s < maxTime"
  shows "b_points (bat_loop wx wz s) \<noteq> []"
proof -
  obtain s' brk where body: "bat_body wx wz s = (s', brk)"
    by (cases "bat_body wx wz s")
  have pts': "b_points s' \<noteq> []"
    using bat_body_points [of wx wz s] body by simp
  have "b_points (bat_loop wx wz s') \<noteq> []"
  proof (rule bat_loop_invariant [where I = "\<lambda>u::bstate. b_points u \<noteq> []"])
    show "b_points s' \<noteq> []" by (rule pts')
  next
    fix u :: bstate
    show "b_points (fst (bat_body wx wz u)) \<noteq> []"
      by (simp add: bat_body_points)
  qed
  with pts' bat_loop_step [OF assms body] show ?thesis
    by simp
qed

lemma bat_body_t_count:
  assumes "b_t u = real (length (b_points u)) * dt_bat"
  shows "b_t (fst (bat_body wx wz u)) = real (length (b_points (fst (bat_body wx wz u)))) * dt_bat"
  using assms by (simp add: b_t_bat_body bat_body_points algebra_simps)

lemma bat_loop_count:
  assumes "b_t s = real (length (b_points s)) * dt_bat" and "length (b_points s) \<le> 2000"
  shows "b_t (bat_loop wx wz s) = real (length (b_points (bat_loop wx wz s))) * dt_bat \<and>
    length (b_points (bat_loop wx wz s)) \<le> 2000"
proof -
  let ?I = "\<lambda>u::bstate. b_t u = real (length (b_points u)) * dt_bat \<and> length (b_points u) \<le> 2000"
  have "?I (bat_loop wx wz s)"
  proof (rule bat_loop_invariant [where I = ?I])
    show "?I s" using assms by simp
  next
    fix u :: bstate assume I: "?I u" and lt: "b_t u < maxTime"
    from I lt have "real (length (b_points u)) * dt_bat < maxTime" by simp
    then have "real (length (b_points u)) < 2000"
      by (simp add: dt_bat_def maxTime_def)
    then have "length (b_points u) < 2000" by linarith
    then show "?I (fst (bat_body wx wz u))"
      using I bat_body_t_count [of u wx wz] by (simp add: bat_body_points)
  qed
  then show ?thesis .
qed

lemma bat_loop_spaced:
  assumes "bat_spaced (b_points s)" and "b_points s \<noteq> [] \<longrightarrow> b_t s = pt (last (b_points s)) + dt_bat"
  shows "bat_spaced (b_points (bat_loop wx wz s))"
proof -
  let ?I = "\<lambda>u::bstate. bat_spaced (b_points u) \<and> (b_points u \<noteq> [] \<longrightarrow> b_t u = pt (last (b_points u)) + dt_bat)"
  have "?I (bat_loop wx wz s)"
  proof (rule bat_loop_invariant [where I = ?I])
    show "?I s" using assms by simp
  next
    fix u :: bstate assume I: "?I u" and lt: "b_t u < maxTime"
    show "?I (fst (bat_body wx wz u))"
      using I by (auto simp add: bat_body_points b_t_bat_body bat_spaced_def successively_append_iff)
  qed
  then show ?thesis by simp
qed

lemma bat_loop_last_run: "bat_loop wx wz s = last (s # bat_run wx wz s)"
proof (induction wx wz s rule: bat_loop.induct)
  case (1 wx wz s)
  show ?case
  proof (cases "b_t s < maxTime")
    case False
    then show ?thesis by (simp add: bat_loop_stop bat_run_stop)
  next
    case True
    note step = bat_loop_step [OF True] bat_run_step [OF True]
    obtain s' brk where body: "bat_body wx wz s = (s', brk)"
      by (cases "bat_body wx wz s")
    show ?thesis
    proof (cases brk)
      case True
      with step [OF body] show ?thesis by simp
    next
      case False
      have "bat_loop wx wz s' = last (s' # bat_run wx wz s')"
        using "1.IH" [OF \<open>b_t s < maxTime\<close> body [symmetric] False] .
      with step [OF body] False show ?thesis by simp
    qed
  qed
qed

lemma bat_body_hit:
  "b_hasHitGround (fst (bat_body wx wz s)) = (b_hasHitGround s \<or> b_y (fst (bat_body wx wz s)) \<le> 0)"
  by (simp add: bat_body_def ground_collision_fields wall_collision_keeps bat_integrate_keeps)

lemma bat_body_carry:
  "b_carryDistance (fst (bat_body wx wz s)) =
    (if b_y (fst (bat_body wx wz s)) \<le> 0 \<and> \<not> b_hasHitGround s then range_xz (fst (bat_body wx wz s))
     else b_carryDistance s)"
  by (simp add: bat_body_def ground_collision_fields wall_collision_keeps bat_integrate_keeps range_xz_def)

lemma bat_loop_carry_kept:
  assumes "b_hasHitGround s"
  shows "b_hasHitGround (bat_loop wx wz s) \<and> b_carryDistance (bat_loop wx wz s) = b_carryDistance s"
proof -
  let ?I = "\<lambda>u::bstate. b_hasHitGround u \<and> b_carryDistance u = b_carryDistance s"
  show ?thesis
  proof (rule bat_loop_invariant [where I = ?I])
    show "?I s" using assms by simp
  next
    fix u :: bstate assume "?I u" and "b_t u < maxTime"
    then show "?I (fst (bat_body wx wz u))"
      by (simp add: bat_body_hit bat_body_carry)
  qed
qed

lemma bat_distance_first_contact:
  assumes "\<not> b_hasHitGround s"
  shows "bat_distance (bat_loop wx wz s) =
    (case find (\<lambda>u. b_y u \<le> 0) (bat_run wx wz s) of
       Some u \<Rightarrow> range_xz u
     | None \<Rightarrow> range_xz (bat_loop wx wz s))"
  using assms
proof (induction wx wz s rule: bat_loop.induct)
  case (1 wx wz s)
  show ?case
  proof (cases "b_t s < maxTime")
    case False
    then show ?thesis using "1.prems"
      by (simp add: bat_distance_def range_xz_def bat_loop_stop bat_run_stop)
  next
    case True
    note step = bat_loop_step [OF True] bat_run_step [OF True]
    obtain s' brk where body: "bat_body wx wz s = (s', brk)"
      by (cases "bat_body wx wz s")
    have s': "s' = fst (bat_body wx wz s)" and brk: "brk = snd (bat_body wx wz s)"
      using body by simp_all
    show ?thesis
    proof (cases "b_y s' \<le> 0")
      case hit: True
      have h': "b_hasHitGround s'" and c': "b_carryDistance s' = range_xz s'"
        using hit "1.prems" unfolding s' by (simp_all add: bat_body_hit bat_body_carry)
      have "bat_distance (bat_loop wx wz s) = range_xz s'"
      proof (cases brk)
        case True
        with step(1) [OF body] h' c' show ?thesis by (simp add: bat_distance_def)
      next
        case False
        with step(1) [OF body] bat_loop_carry_kept [OF h', of wx wz] c'
        show ?thesis by (simp add: bat_distance_def)
      qed
      with step(2) [OF body] hit show ?thesis by simp
    next
      case nohit: False
      have h': "\<not> b_hasHitGround s'"
        using nohit "1.prems" unfolding s' by (simp add: bat_body_hit)
      have nb: "\<not> brk"
        using nohit ground_collision_break [of "wall_collision (b_x s) (b_z s) (bat_integrate wx wz s)"]
        unfolding brk s' by (auto simp add: bat_body_def ground_collision_fields split: if_splits)
      have "bat_distance (bat_loop wx wz s') =
        (case find (\<lambda>u. b_y u \<le> 0) (bat_run wx wz s') of
           Some u \<Rightarrow> range_xz u
         | None \<Rightarrow> range_xz (bat_loop wx wz s'))"
        using "1.IH" [OF \<open>b_t s < maxTime\<close> body [symmetric] nb h'] .
      with step [OF body] nb nohit show ?thesis by (simp split: option.splits)
    qed
  qed
qed

subsection \<open>Wall and ground\<close>

lemma wall_segments_len:
  assumes "seg \<in> set WALL_SEGMENTS"
  shows "0 < (x2 seg - x1 seg) * (x2 seg - x1 seg) + (z2 seg - z1 seg) * (z2 seg - z1 seg)"
  using assms by (auto simp add: WALL_SEGMENTS_def)

lemma wall_normal_cases:
  fixes seg :: WallSegment
  defines "len \<equiv> sqrt ((x2 seg - x1 seg) * (x2 seg - x1 seg) + (z2 seg - z1 seg) * (z2 seg - z1 seg))"
  shows "wall_normal seg = (- (z2 seg - z1 seg) / len, (x2 seg - x1 seg) / len) \<or>
         wall_normal seg = (- (- (z2 seg - z1 seg) / len), - ((x2 seg - x1 seg) / len))"
  unfolding wall_normal_def Let_def len_def by (rule if_split [THEN iffD2]) blast

lemma wall_normal_unit:
  assumes "seg \<in> set WALL_SEGMENTS" and "wall_normal seg = (nx, nz)"
  shows "nx * nx + nz * nz = 1"
proof -
  define dx where "dx = x2 seg - x1 seg"
  define dz where "dz = z2 seg - z1 seg"
  define len where "len = sqrt (dx * dx + dz * dz)"
  have pos: "0 < dx * dx + dz * dz"
    using wall_segments_len [OF assms(1)] by (simp add: dx_def dz_def)
  then have len2: "len * len = dx * dx + dz * dz"
    by (simp add: len_def)
  have "0 < len"
    unfolding len_def using pos by (simp only: real_sqrt_gt_0_iff)
  then have len0: "len \<noteq> 0"
    by simp
  have "(nx, nz) = (- dz / len, dx / len) \<or> (nx, nz) = (- (- dz / len), - (dx / len))"
    using wall_normal_cases [of seg] assms(2) by (simp only: dx_def dz_def len_def)
  then have "nx * nx + nz * nz = (dz / len) * (dz / len) + (dx / len) * (dx / len)"
    by auto
  also have "\<dots> = (dx * dx + dz * dz) / (len * len)"
    by (simp add: add_divide_distrib)
  also have "\<dots> = 1"
    using len0 by (simp only: len2 [symmetric]) simp
  finally show ?thesis .
qed

lemma wall_normal_inward:
  assumes "wall_normal seg = (nx, nz)"
  shows "nx * ((x1 seg + x2 seg) / 2) + nz * ((z1 seg + z2 seg) / 2) \<le> 0"
  using assms by (auto simp add: wall_normal_def Let_def split: if_splits)

lemma wall_normal_perp:
  assumes "wall_normal seg = (nx, nz)"
  shows "nx * (x2 seg - x1 seg) + nz * (z2 seg - z1 seg) = 0"
proof -
  define dx where "dx = x2 seg - x1 seg"
  define dz where "dz = z2 seg - z1 seg"
  define len where "len = sqrt (dx * dx + dz * dz)"
  have "(nx, nz) = (- dz / len, dx / len) \<or> (nx, nz) = (- (- dz / len), - (dx / len))"
    using wall_normal_cases [of seg] assms by (simp only: dx_def dz_def len_def)
  then have "nx * dx + nz * dz = 0"
    by auto
  then show ?thesis
    by (simp only: dx_def dz_def)
qed

lemma wall_loop_first:
  assumes "\<forall>g\<in>set pre. getLineIntersection prevX prevZ (b_x s) (b_z s) (x1 g) (z1 g) (x2 g) (z2 g) = None"
    and "getLineIntersection prevX prevZ (b_x s) (b_z s) (x1 seg) (z1 seg) (x2 seg) (z2 seg) = Some i"
  shows "wall_loop prevX prevZ (pre @ seg # post) s = wall_reflect seg i s"
  using assms by (induction pre) simp_all

lemma reflect_speed:
  fixes vx vz nx nz :: real
  assumes "nx * nx + nz * nz = 1"
  shows "sqrt (((vx - 2 * (vx * nx + vz * nz) * nx) * COR_WALL) * ((vx - 2 * (vx * nx + vz * nz) * nx) * COR_WALL) +
               ((vz - 2 * (vx * nx + vz * nz) * nz) * COR_WALL) * ((vz - 2 * (vx * nx + vz * nz) * nz) * COR_WALL))
         = 0.7 * sqrt (vx * vx + vz * vz)"
proof -
  define d where "d = vx * nx + vz * nz"
  define a where "a = vx - 2 * d * nx"
  define b where "b = vz - 2 * d * nz"
  have "a * a + b * b
      = vx * vx + vz * vz - 4 * d * (vx * nx + vz * nz) + 4 * d * d * (nx * nx + nz * nz)"
    by (simp add: a_def b_def algebra_simps)
  also have "\<dots> = vx * vx + vz * vz"
    by (simp add: assms d_def [symmetric])
  finally have eq: "a * a + b * b = vx * vx + vz * vz" .
  have "(a * COR_WALL) * (a * COR_WALL) + (b * COR_WALL) * (b * COR_WALL)
      = (0.7 * 0.7) * (a * a + b * b)"
    by (simp add: COR_WALL_def algebra_simps)
  also have "\<dots> = (0.7 * 0.7) * (vx * vx + vz * vz)"
    by (simp only: eq)
  finally have "sqrt ((a * COR_WALL) * (a * COR_WALL) + (b * COR_WALL) * (b * COR_WALL))
      = sqrt ((0.7 * 0.7) * (vx * vx + vz * vz))"
    by (simp only:)
  also have "\<dots> = 0.7 * sqrt (vx * vx + vz * vz)"
  proof -
    have gen: "sqrt ((c * c) * A) = c * sqrt A" if "0 \<le> c" for c A :: real
      using that by (simp add: real_sqrt_mult)
    show ?thesis
      by (rule gen) simp
  qed
  finally show ?thesis
    by (simp only: a_def b_def d_def)
qed

lemma left_center_normal:
  "wall_normal left_center = (20.4 / sqrt (42.1 * 42.1 + 20.4 * 20.4), - (42.1 / sqrt (42.1 * 42.1 + 20.4 * 20.4)))"
proof -
  define L :: real where "L = sqrt (42.1 * 42.1 + 20.4 * 20.4)"
  have L: "0 < L"
    unfolding L_def by simp
  have "(- 20.4 / L) * ((- 42.1 + 0) / 2) + (42.1 / L) * ((101.6 + 122) / 2) = (20.4 * 21.05 + 42.1 * 111.8) / L"
    by (simp add: field_simps)
  moreover have "0 < (20.4 * 21.05 + 42.1 * 111.8) / L"
    using L by simp
  ultimately have pos: "(- 20.4 / L) * ((- 42.1 + 0) / 2) + (42.1 / L) * ((101.6 + 122) / 2) > 0"
    by simp
  have dx: "x2 left_center - x1 left_center = 42.1" and dz: "z2 left_center - z1 left_center = 20.4"
    by (simp_all add: left_center_def)
  have "wall_normal left_center = (- (- 20.4 / L), - (42.1 / L))"
    unfolding wall_normal_def Let_def dx dz L_def [symmetric]
    using pos by (simp add: left_center_def)
  then show ?thesis
    by (simp add: L_def)
qed





lemma drag_k_bounds: "0.003 < drag_k" "drag_k < 0.007"
proof -
  define q :: real where "q = 0.5 * 1.225 * 0.3 * (0.037 * 0.037) / 0.145"
  have q: "0.0017 < q" "q < 0.00174"
    by (simp_all add: q_def)
  have eq: "drag_k = pi * q"
    by (simp add: drag_k_def AIR_DENSITY_def DRAG_COEFFICIENT_def BALL_AREA_def BALL_MASS_def
        BALL_RADIUS_def q_def power2_eq_square)
  have "0.003 < 2 * q"
    using q(1) by simp
  also have "2 * q \<le> pi * q"
    using pi_ge_two q(1) by (intro mult_right_mono) simp_all
  finally show "0.003 < drag_k"
    by (simp only: eq)
  have "pi * q \<le> 4 * q"
    using pi_less_4 q(1) by (intro mult_right_mono) simp_all
  also have "4 * q < 0.007"
    using q(2) by simp
  finally show "drag_k < 0.007"
    by (simp only: eq)
qed






subsection \<open>The pitch loop\<close>

lemma pitch_loop_stop: "\<not> p_z s > - CATCHER_DEPTH \<Longrightarrow> pitch_loop params s = Exited s"
  by simp

lemma pitch_loop_break:
  "p_z s > - CATCHER_DEPTH \<Longrightarrow> p_t s > MAX_SIMULATION_TIME \<or> p_y s \<le> 0 \<Longrightarrow>
    pitch_loop params s = Exited (pitch_record s)"
  by (auto simp add: Let_def pitch_record_def)

lemma pitch_loop_nan:
  "p_z s > - CATCHER_DEPTH \<Longrightarrow> \<not> p_t s > MAX_SIMULATION_TIME \<Longrightarrow> \<not> p_y s \<le> 0 \<Longrightarrow>
    pitch_step params (pitch_record s) = None \<Longrightarrow> pitch_loop params s = WentNaN (pitch_record s)"
  by (simp add: Let_def pitch_record_def)

lemma pitch_loop_step:
  "p_z s > - CATCHER_DEPTH \<Longrightarrow> \<not> p_t s > MAX_SIMULATION_TIME \<Longrightarrow> \<not> p_y s \<le> 0 \<Longrightarrow>
    pitch_step params (pitch_record s) = Some s' \<Longrightarrow> pitch_loop params s = pitch_loop params s'"
  by (simp add: Let_def pitch_record_def)

lemma pitch_run_stop: "\<not> p_z s > - CATCHER_DEPTH \<Longrightarrow> pitch_run params s = []"
  by simp

lemma pitch_run_break:
  "p_t s > MAX_SIMULATION_TIME \<or> p_y s \<le> 0 \<Longrightarrow> pitch_run params s = []"
  by (auto simp add: Let_def pitch_record_def)

lemma pitch_run_nan:
  "pitch_step params (pitch_record s) = None \<Longrightarrow> pitch_run params s = []"
  by (simp add: Let_def pitch_record_def)

lemma pitch_run_step:
  "p_z s > - CATCHER_DEPTH \<Longrightarrow> \<not> p_t s > MAX_SIMULATION_TIME \<Longrightarrow> \<not> p_y s \<le> 0 \<Longrightarrow>
    pitch_step params (pitch_record s) = Some s' \<Longrightarrow>
    pitch_run params s = (pitch_record s, s') # pitch_run params s'"
  by (simp add: Let_def pitch_record_def)

declare pitch_loop.simps [simp del] pitch_run.simps [simp del]

lemma pitch_loop_invariant:
  assumes "I s"
    and "\<And>u u'. I u \<Longrightarrow> p_z u > - CATCHER_DEPTH \<Longrightarrow> \<not> p_t u > MAX_SIMULATION_TIME \<Longrightarrow>
           \<not> p_y u \<le> 0 \<Longrightarrow> pitch_step params (pitch_record u) = Some u' \<Longrightarrow> I u'"
  shows "pitch_exit_inv I (pitch_loop params s)"
  using assms
proof (induction params s rule: pitch_loop.induct)
  case (1 params s)
  show ?case
  proof (cases "p_z s > - CATCHER_DEPTH")
    case False
    then show ?thesis
      using "1.prems"(1) by (simp add: pitch_loop_stop pitch_exit_inv_def)
  next
    case z: True
    show ?thesis
    proof (cases "p_t s > MAX_SIMULATION_TIME \<or> p_y s \<le> 0")
      case True
      then show ?thesis
        using z "1.prems"(1) pitch_loop_break [OF z True, of params]
        by (auto simp add: pitch_exit_inv_def)
    next
      case False
      then have t: "\<not> p_t s > MAX_SIMULATION_TIME" and y: "\<not> p_y s \<le> 0"
        by simp_all
      show ?thesis
      proof (cases "pitch_step params (pitch_record s)")
        case None
        then show ?thesis
          using z t y "1.prems"(1) pitch_loop_nan [OF z t y None]
          by (auto simp add: pitch_exit_inv_def)
      next
        case (Some s')
        have I': "I s'"
          using "1.prems"(2) [OF "1.prems"(1) z t y Some] .
        have t1: "\<not> MAX_SIMULATION_TIME < p_t (pitch_record s)"
          and y1: "\<not> p_y (pitch_record s) \<le> 0"
          using t y by (simp_all add: pitch_record_def)
        have "pitch_exit_inv I (pitch_loop params s')"
          using "1.IH" [OF z refl t1 y1 Some I' "1.prems"(2)] by simp
        then show ?thesis
          using pitch_loop_step [OF z t y Some] by simp
      qed
    qed
  qed
qed

lemma pitch_record_fields:
  "p_points (pitch_record s) = p_points s @ [pitch_sample s]"
  "p_t (pitch_record s) = p_t s" "p_x (pitch_record s) = p_x s"
  "p_y (pitch_record s) = p_y s" "p_z (pitch_record s) = p_z s"
  "p_plateCrossing (pitch_record s) = p_plateCrossing s"
  "pitch_sample (pitch_record s) = pitch_sample s"
  by (simp_all add: pitch_record_def pitch_sample_def)

lemma pitch_advance_points: "pitch_advance params s = Some s' \<Longrightarrow> p_points s' = p_points s"
  by (auto simp add: pitch_advance_def Let_def split: if_splits)

lemma pitch_step_points: "pitch_step params s = Some s' \<Longrightarrow> p_points s' = p_points s"
  by (auto simp add: pitch_step_def Let_def pitch_advance_points split: option.splits if_splits)

lemma pitch_sample_fields:
  "pt (pitch_sample s) = p_t s" "py (pitch_sample s) = p_y s" "pz (pitch_sample s) = p_z s"
  "px (pitch_sample s) = p_x s"
  by (simp_all add: pitch_sample_def)

lemma pitch_init_fields:
  "p_t (pitch_init params) = 0" "p_points (pitch_init params) = []"
  "p_plateCrossing (pitch_init params) = None"
  "p_x (pitch_init params) = releaseSide params / 100"
  "p_y (pitch_init params) = releaseHeight params"
  "p_z (pitch_init params) = MOUND_DISTANCE - extension params / 100"
  by (simp_all add: pitch_init_def Let_def)

lemma pitch_loop_count:
  "length (pitch_points (pitch_result (pitch_loop params (pitch_init params)))) \<le> 2503"
proof -
  let ?I = "\<lambda>u::pstate. p_t u = real (length (p_points u)) * dt_pitch \<and> length (p_points u) \<le> 2501"
  have "pitch_exit_inv ?I (pitch_loop params (pitch_init params))"
  proof (rule pitch_loop_invariant [where I = ?I])
    show "?I (pitch_init params)" by (simp add: pitch_init_fields)
  next
    fix u u' :: pstate
    assume I: "?I u" and t: "\<not> p_t u > MAX_SIMULATION_TIME"
      and step: "pitch_step params (pitch_record u) = Some u'"
    from I t have "real (length (p_points u)) * dt_pitch \<le> MAX_SIMULATION_TIME" by simp
    then have "real (length (p_points u)) \<le> 2500"
      by (simp add: dt_pitch_def MAX_SIMULATION_TIME_def)
    then have "length (p_points u) \<le> 2500" by linarith
    then show "?I u'"
      using I p_t_pitch_step [OF step] pitch_step_points [OF step]
      by (simp add: pitch_record_fields algebra_simps)
  qed
  then show ?thesis
    by (auto simp add: pitch_exit_inv_def pitch_result_def pitch_record_fields split: loop_exit.splits)
qed

lemma pitch_step_crossing:
  assumes "pitch_step params s = Some s'"
  shows "p_plateCrossing s' =
    (if crossed (s, s') then Some (interpolate (s, s')) else p_plateCrossing s)"
proof -
  obtain m where m: "pitch_advance params s = Some m"
    using assms by (auto simp add: pitch_step_def split: option.splits)
  have cr: "p_plateCrossing m = p_plateCrossing s"
    using m by (auto simp add: pitch_advance_def Let_def split: if_splits)
  show ?thesis
    using assms m cr
    by (auto simp add: pitch_step_def crossed_def interpolate_def Let_def)
qed

lemma pitch_loop_crossing:
  "p_plateCrossing (exit_state (pitch_loop params s)) =
    (case filter crossed (pitch_run params s) of
       [] \<Rightarrow> p_plateCrossing s
     | c # cs \<Rightarrow> Some (interpolate (last (c # cs))))"
proof (induction params s rule: pitch_loop.induct)
  case (1 params s)
  show ?case
  proof (cases "p_z s > - CATCHER_DEPTH")
    case False
    then show ?thesis
      by (simp add: pitch_loop_stop pitch_run_stop)
  next
    case z: True
    show ?thesis
    proof (cases "p_t s > MAX_SIMULATION_TIME \<or> p_y s \<le> 0")
      case True
      then show ?thesis
        using pitch_loop_break [OF z True, of params] pitch_run_break [OF True, of params]
        by (simp add: pitch_record_fields)
    next
      case False
      then have t: "\<not> p_t s > MAX_SIMULATION_TIME" and y: "\<not> p_y s \<le> 0"
        by simp_all
      show ?thesis
      proof (cases "pitch_step params (pitch_record s)")
        case None
        then show ?thesis
          using pitch_loop_nan [OF z t y None] pitch_run_nan [OF None]
          by (simp add: pitch_record_fields)
      next
        case (Some s')
        have t1: "\<not> MAX_SIMULATION_TIME < p_t (pitch_record s)"
          and y1: "\<not> p_y (pitch_record s) \<le> 0"
          using t y by (simp_all add: pitch_record_def)
        have IH: "p_plateCrossing (exit_state (pitch_loop params s')) =
          (case filter crossed (pitch_run params s') of
             [] \<Rightarrow> p_plateCrossing s'
           | c # cs \<Rightarrow> Some (interpolate (last (c # cs))))"
          using "1.IH" [OF z refl t1 y1 Some] .
        show ?thesis
          using IH pitch_step_crossing [OF Some]
          by (simp add: pitch_loop_step [OF z t y Some] pitch_run_step [OF z t y Some]
              pitch_record_fields split: list.splits)
      qed
    qed
  qed
qed

lemma pitch_result_crossing:
  "plateCrossing (pitch_result e) =
    (case p_plateCrossing (exit_state e) of
       Some c \<Rightarrow> Val c
     | None \<Rightarrow> sample_xy (last (pitch_points (pitch_result e))))"
  by (cases e) (simp_all add: pitch_result_def pitch_sample_fields split: option.splits)

lemma pitch_spaced_snoc:
  "pitch_spaced (ps @ [a]) \<longleftrightarrow>
     pitch_spaced ps \<and> (ps \<noteq> [] \<longrightarrow> sample_t a = sample_t (last ps) + dt_pitch)"
  by (auto simp add: pitch_spaced_def successively_append_iff)

lemma pitch_loop_spaced:
  fixes params
  defines "I \<equiv> \<lambda>u::pstate. pitch_spaced (map Sample (p_points u)) \<and>
      (p_points u \<noteq> [] \<longrightarrow> p_t u = pt (last (p_points u)) + dt_pitch)"
  shows "pitch_exit_inv I (pitch_loop params (pitch_init params))"
proof (rule pitch_loop_invariant)
  show "I (pitch_init params)"
    by (simp add: I_def pitch_init_fields pitch_spaced_def)
next
  fix u u' :: pstate
  assume I: "I u" and step: "pitch_step params (pitch_record u) = Some u'"
  show "I u'"
    using I p_t_pitch_step [OF step] pitch_step_points [OF step]
    by (auto simp add: I_def pitch_record_fields pitch_sample_fields pitch_spaced_snoc last_map)
qed

lemma pitch_times:
  "pitch_spaced (pitch_points (calculatePitchTrajectory params)) \<or>
   (\<exists>qs q. pitch_points (calculatePitchTrajectory params) = qs @ [Sample q, Sample q] \<and>
      pitch_spaced (qs @ [Sample q]) \<and> pz q > - CATCHER_DEPTH \<and>
      (py q \<le> 0 \<or> pt q > MAX_SIMULATION_TIME))"
proof (cases "velocity params \<le> 0.1")
  case True
  then show ?thesis
    by (simp add: calculatePitchTrajectory_def pitch_spaced_def)
next
  case False
  define I where "I \<equiv> \<lambda>u::pstate. pitch_spaced (map Sample (p_points u)) \<and>
      (p_points u \<noteq> [] \<longrightarrow> p_t u = pt (last (p_points u)) + dt_pitch)"
  have inv: "pitch_exit_inv I (pitch_loop params (pitch_init params))"
    unfolding I_def by (rule pitch_loop_spaced)
  have res: "calculatePitchTrajectory params = pitch_result (pitch_loop params (pitch_init params))"
    using False by (simp add: calculatePitchTrajectory_def)
  show ?thesis
  proof (cases "pitch_loop params (pitch_init params)")
    case (WentNaN f)
    then obtain u where u: "I u" "f = pitch_record u"
      using inv by (auto simp add: pitch_exit_inv_def)
    let ?q = "pitch_sample u"
    have sp: "pitch_spaced (map Sample (p_points u) @ [Sample ?q])"
      using u(1) by (auto simp add: I_def pitch_spaced_snoc pitch_sample_fields last_map)
    have "pitch_spaced ((map Sample (p_points u) @ [Sample ?q]) @ [SampleNaN (p_t u + dt_pitch)])"
      by (subst pitch_spaced_snoc) (simp add: sp pitch_sample_fields)
    then have "pitch_spaced (pitch_points (calculatePitchTrajectory params))"
      using u(2) unfolding res WentNaN
      by (simp add: pitch_result_def pitch_record_fields)
    then show ?thesis ..
  next
    case (Exited f)
    from inv Exited consider
      (test) "I f" "\<not> p_z f > - CATCHER_DEPTH"
      | (brk) u where "I u" "f = pitch_record u" "p_z u > - CATCHER_DEPTH"
          "p_t u > MAX_SIMULATION_TIME \<or> p_y u \<le> 0"
      by (auto simp add: pitch_exit_inv_def)
    then show ?thesis
    proof cases
      case test
      have "pitch_spaced (pitch_points (calculatePitchTrajectory params))"
        using test unfolding res Exited
        by (auto simp add: pitch_result_def I_def pitch_sample_fields pitch_spaced_snoc last_map)
      then show ?thesis ..
    next
      case brk
      let ?q = "pitch_sample u"
      have pts: "pitch_points (calculatePitchTrajectory params) =
          map Sample (p_points u) @ [Sample ?q, Sample ?q]"
        unfolding res Exited using brk(2)
        by (simp add: pitch_result_def pitch_record_fields)
      have sp: "pitch_spaced (map Sample (p_points u) @ [Sample ?q])"
        using brk(1) by (auto simp add: I_def pitch_spaced_snoc pitch_sample_fields last_map)
      have "pz ?q > - CATCHER_DEPTH" "py ?q \<le> 0 \<or> pt ?q > MAX_SIMULATION_TIME"
        using brk(3,4) by (auto simp add: pitch_sample_fields)
      with pts sp show ?thesis by blast
    qed
  qed
qed

lemma pitch_on_ground:
  assumes "\<not> velocity params \<le> 0.1" and "releaseHeight params \<le> 0"
    and "MOUND_DISTANCE - extension params / 100 > - CATCHER_DEPTH"
  shows "pitch_points (calculatePitchTrajectory params) =
    [Sample (pitch_sample (pitch_init params)), Sample (pitch_sample (pitch_init params))]"
proof -
  have "pitch_loop params (pitch_init params) = Exited (pitch_record (pitch_init params))"
    using assms by (intro pitch_loop_break) (simp_all add: pitch_init_fields)
  then show ?thesis
    using assms(1)
    by (simp add: calculatePitchTrajectory_def pitch_result_def pitch_record_fields pitch_init_fields)
qed


lemma pitch_advance_some:
  assumes "sqrt (p_vx s * p_vx s + p_vy s * p_vy s + p_vz s * p_vz s) \<noteq> 0"
  shows "\<exists>m. pitch_advance params s = Some m"
  using assms by (simp add: pitch_advance_def Let_def)

lemma pitch_advance_kept:
  assumes "pitch_advance params s = Some m"
  shows "p_t m = p_t s + dt_pitch" "p_plateCrossing m = p_plateCrossing s" "p_points m = p_points s"
    "p_x m = p_x s + p_vx m * dt_pitch" "p_y m = p_y s + p_vy m * dt_pitch"
    "p_z m = p_z s + p_vz m * dt_pitch"
  using assms by (auto simp add: pitch_advance_def Let_def split: if_splits)

lemma pitch_advance_velocity:
  fixes s :: pstate
  defines "V \<equiv> sqrt (p_vx s * p_vx s + p_vy s * p_vy s + p_vz s * p_vz s)"
  assumes "pitch_advance params s = Some m" and "omega params = 0"
  shows "p_vx m = p_vx s * (1 - drag_k * V * dt_pitch)"
    and "p_vy m = p_vy s * (1 - drag_k * V * dt_pitch) - GRAVITY * dt_pitch"
    and "p_vz m = p_vz s * (1 - drag_k * V * dt_pitch)"
proof -
  have V0: "V \<noteq> 0"
    using assms(2) by (auto simp add: pitch_advance_def Let_def V_def split: if_splits)
  have m: "m = s\<lparr>p_vBreakX := p_vBreakX s, p_vBreakY := p_vBreakY s,
       p_currentBreakX := p_currentBreakX s + p_vBreakX s * dt_pitch,
       p_currentBreakY := p_currentBreakY s + p_vBreakY s * dt_pitch,
       p_vx := p_vx s + - (0.5 * AIR_DENSITY * V ^ 2 * DRAG_COEFFICIENT * BALL_AREA / BALL_MASS) * (p_vx s / V) * dt_pitch,
       p_vy := p_vy s + (- GRAVITY + - (0.5 * AIR_DENSITY * V ^ 2 * DRAG_COEFFICIENT * BALL_AREA / BALL_MASS) * (p_vy s / V)) * dt_pitch,
       p_vz := p_vz s + - (0.5 * AIR_DENSITY * V ^ 2 * DRAG_COEFFICIENT * BALL_AREA / BALL_MASS) * (p_vz s / V) * dt_pitch,
       p_x := p_x s + (p_vx s + - (0.5 * AIR_DENSITY * V ^ 2 * DRAG_COEFFICIENT * BALL_AREA / BALL_MASS) * (p_vx s / V) * dt_pitch) * dt_pitch,
       p_y := p_y s + (p_vy s + (- GRAVITY + - (0.5 * AIR_DENSITY * V ^ 2 * DRAG_COEFFICIENT * BALL_AREA / BALL_MASS) * (p_vy s / V)) * dt_pitch) * dt_pitch,
       p_z := p_z s + (p_vz s + - (0.5 * AIR_DENSITY * V ^ 2 * DRAG_COEFFICIENT * BALL_AREA / BALL_MASS) * (p_vz s / V) * dt_pitch) * dt_pitch,
       p_t := p_t s + dt_pitch\<rparr>"
    using assms(2) V0 unfolding pitch_advance_def Let_def V_def [symmetric] assms(3)
    by simp
  have drag: "a + - (0.5 * AIR_DENSITY * V ^ 2 * DRAG_COEFFICIENT * BALL_AREA / BALL_MASS) * (a / V) * dt_pitch
      = a * (1 - drag_k * V * dt_pitch)" for a :: real
    using V0 by (simp add: drag_k_def power2_eq_square algebra_simps)
  have dragy: "a + (- GRAVITY + - (0.5 * AIR_DENSITY * V ^ 2 * DRAG_COEFFICIENT * BALL_AREA / BALL_MASS) * (a / V)) * dt_pitch
      = a * (1 - drag_k * V * dt_pitch) - GRAVITY * dt_pitch" for a :: real
    using drag [of a] by (simp add: algebra_simps)
  have "p_vx m = p_vx s + - (0.5 * AIR_DENSITY * V ^ 2 * DRAG_COEFFICIENT * BALL_AREA / BALL_MASS) * (p_vx s / V) * dt_pitch"
    by (subst m) simp
  also have "\<dots> = p_vx s * (1 - drag_k * V * dt_pitch)"
    by (rule drag)
  finally show "p_vx m = p_vx s * (1 - drag_k * V * dt_pitch)" .
  have "p_vy m = p_vy s + (- GRAVITY + - (0.5 * AIR_DENSITY * V ^ 2 * DRAG_COEFFICIENT * BALL_AREA / BALL_MASS) * (p_vy s / V)) * dt_pitch"
    by (subst m) simp
  also have "\<dots> = p_vy s * (1 - drag_k * V * dt_pitch) - GRAVITY * dt_pitch"
    by (rule dragy)
  finally show "p_vy m = p_vy s * (1 - drag_k * V * dt_pitch) - GRAVITY * dt_pitch" .
  have "p_vz m = p_vz s + - (0.5 * AIR_DENSITY * V ^ 2 * DRAG_COEFFICIENT * BALL_AREA / BALL_MASS) * (p_vz s / V) * dt_pitch"
    by (subst m) simp
  also have "\<dots> = p_vz s * (1 - drag_k * V * dt_pitch)"
    by (rule drag)
  finally show "p_vz m = p_vz s * (1 - drag_k * V * dt_pitch)" .
qed

lemma pitch_record_velocity:
  "p_vx (pitch_record s) = p_vx s" "p_vy (pitch_record s) = p_vy s" "p_vz (pitch_record s) = p_vz s"
  by (simp_all add: pitch_record_def)

lemma pitch_step_advance:
  assumes "pitch_advance params s = Some m"
  shows "\<exists>s'. pitch_step params s = Some s' \<and>
      p_vx s' = p_vx m \<and> p_vy s' = p_vy m \<and> p_vz s' = p_vz m \<and>
      p_x s' = p_x m \<and> p_y s' = p_y m \<and> p_z s' = p_z m \<and> p_t s' = p_t m"
  using assms by (simp add: pitch_step_def Let_def)


lemma pitch_init_velocity:
  "p_vx (pitch_init P) = velocity P * (1000 / 3600) * sin (hAngle P * (pi / 180)) * cos (vAngle P * (pi / 180))"
  "p_vy (pitch_init P) = velocity P * (1000 / 3600) * sin (vAngle P * (pi / 180))"
  "p_vz (pitch_init P) = - (velocity P * (1000 / 3600)) * cos (hAngle P * (pi / 180)) * cos (vAngle P * (pi / 180))"
  by (simp_all add: pitch_init_def Let_def)

lemma pitch_init_speed:
  "sqrt (p_vx (pitch_init P) * p_vx (pitch_init P) + p_vy (pitch_init P) * p_vy (pitch_init P)
      + p_vz (pitch_init P) * p_vz (pitch_init P)) = \<bar>velocity P * (1000 / 3600)\<bar>"
proof -
  define c where "c = velocity P * (1000 / 3600)"
  define sh where "sh = sin (hAngle P * (pi / 180))"
  define ch where "ch = cos (hAngle P * (pi / 180))"
  define sv where "sv = sin (vAngle P * (pi / 180))"
  define cv where "cv = cos (vAngle P * (pi / 180))"
  have h: "sh * sh + ch * ch = 1" and v: "sv * sv + cv * cv = 1"
    using sin_cos_squared_add [of "hAngle P * (pi / 180)"] sin_cos_squared_add [of "vAngle P * (pi / 180)"]
    by (simp_all add: sh_def ch_def sv_def cv_def power2_eq_square)
  have "(c * sh * cv) * (c * sh * cv) + (c * sv) * (c * sv) + (- c * ch * cv) * (- c * ch * cv)
      = (c * c) * ((sh * sh + ch * ch) * (cv * cv) + sv * sv)"
    by (simp add: algebra_simps)
  also have "(sh * sh + ch * ch) * (cv * cv) + sv * sv = 1"
    unfolding h using v by (simp add: add.commute)
  finally have "sqrt ((c * sh * cv) * (c * sh * cv) + (c * sv) * (c * sv) + (- c * ch * cv) * (- c * ch * cv)) = \<bar>c\<bar>"
    by simp
  then show ?thesis
    unfolding pitch_init_velocity c_def sh_def ch_def sv_def cv_def by simp
qed






text \<open>One pass of the pitch loop without spin.\<close>

lemma spinless_pass:
  fixes s :: pstate
  assumes om: "omega P = 0"
    and z: "p_z s > - CATCHER_DEPTH" and t: "\<not> p_t s > MAX_SIMULATION_TIME" and y: "\<not> p_y s \<le> 0"
    and V: "sqrt (p_vx s * p_vx s + p_vy s * p_vy s + p_vz s * p_vz s) = V" and V0: "V \<noteq> 0"
    and f: "f = 1 - drag_k * V * dt_pitch"
  shows "\<exists>s'. pitch_loop P s = pitch_loop P s' \<and>
      pitch_run P s = (pitch_record s, s') # pitch_run P s' \<and>
      p_vx s' = p_vx s * f \<and> p_vy s' = p_vy s * f - GRAVITY * dt_pitch \<and> p_vz s' = p_vz s * f \<and>
      p_x s' = p_x s + p_vx s * f * dt_pitch \<and>
      p_y s' = p_y s + (p_vy s * f - GRAVITY * dt_pitch) * dt_pitch \<and>
      p_z s' = p_z s + p_vz s * f * dt_pitch \<and>
      p_t s' = p_t s + dt_pitch"
proof -
  let ?r = "pitch_record s"
  obtain m where m: "pitch_advance P ?r = Some m"
    using pitch_advance_some [of ?r P] V V0 by (auto simp add: pitch_record_velocity)
  note vel_m = pitch_advance_velocity [OF m om, unfolded pitch_record_velocity V, folded f]
  note kept = pitch_advance_kept [OF m, unfolded pitch_record_fields]
  obtain s' where s': "pitch_step P ?r = Some s'"
    and f1: "p_vx s' = p_vx m" "p_vy s' = p_vy m" "p_vz s' = p_vz m"
      "p_x s' = p_x m" "p_y s' = p_y m" "p_z s' = p_z m" "p_t s' = p_t m"
    using pitch_step_advance [OF m] by blast
  have "pitch_loop P s = pitch_loop P s'"
    using z t y s' by (rule pitch_loop_step)
  moreover have "pitch_run P s = (pitch_record s, s') # pitch_run P s'"
    using z t y s' by (rule pitch_run_step)
  ultimately show ?thesis
    using f1 kept vel_m by (intro exI [of _ s']) simp
qed

text \<open>Drag scales the horizontal velocity by \<open>F\<close>, so the speed grows at least by \<open>\<bar>F\<bar>\<close>.\<close>

lemma speed_lower:
  fixes a b c F :: real
  shows "\<bar>F\<bar> * sqrt (a * a + c * c) \<le> sqrt ((a * F) * (a * F) + b * b + (c * F) * (c * F))"
proof -
  have "\<bar>F\<bar> * sqrt (a * a + c * c) = sqrt ((F * F) * (a * a + c * c))"
    by (simp add: real_sqrt_mult)
  also have "\<dots> \<le> sqrt ((a * F) * (a * F) + b * b + (c * F) * (c * F))"
    by (rule real_sqrt_le_mono) (simp add: algebra_simps)
  finally show ?thesis .
qed

text \<open>The pitch \<open>zigzag_pitch\<close>: its release state and its three passes.\<close>

lemma zigzag_init:
  "p_x (pitch_init zigzag_pitch) = 0" "p_y (pitch_init zigzag_pitch) = 0.5"
  "p_z (pitch_init zigzag_pitch) = 0" "p_t (pitch_init zigzag_pitch) = 0"
  "p_vy (pitch_init zigzag_pitch) = 0"
  "sqrt (p_vx (pitch_init zigzag_pitch) * p_vx (pitch_init zigzag_pitch)
       + p_vy (pitch_init zigzag_pitch) * p_vy (pitch_init zigzag_pitch)
       + p_vz (pitch_init zigzag_pitch) * p_vz (pitch_init zigzag_pitch)) = 1000000"
  "omega zigzag_pitch = 0"
  unfolding pitch_init_speed
  by (simp_all add: pitch_init_fields pitch_init_velocity zigzag_pitch_def MOUND_DISTANCE_def omega_def)

lemma zigzag_vz:
  "0 < p_vz (pitch_init zigzag_pitch)" "p_vz (pitch_init zigzag_pitch) \<le> 25"
proof -
  define d where "d = 0.001 * (pi / 180)"
  have d0: "0 < d"
    by (simp add: d_def)
  have "d \<le> 0.001 * (4 / 180)"
    unfolding d_def using pi_less_4 by (intro mult_left_mono) simp_all
  then have d1: "d \<le> 1 / 40000"
    by simp
  have "d < pi"
    using d1 pi_ge_two by linarith
  then have s0: "0 < sin d"
    using d0 by (intro sin_gt_zero)
  have s1: "sin d \<le> d"
    using d0 by (intro sin_x_le_x) simp
  have "90.001 * (pi / 180) = pi / 2 + d"
    by (simp add: d_def)
  then have "cos (90.001 * (pi / 180)) = - sin d"
    by (simp only: cos_add) simp
  then have vz: "p_vz (pitch_init zigzag_pitch) = 1000000 * sin d"
    by (simp add: pitch_init_velocity zigzag_pitch_def)
  show "0 < p_vz (pitch_init zigzag_pitch)"
    unfolding vz using s0 by simp
  show "p_vz (pitch_init zigzag_pitch) \<le> 25"
    unfolding vz using s1 d1 by simp
qed

lemma interp_below:
  fixes g k a b y0 :: real
  assumes "0 < g" "0 < k" "1 < a" "1 < b"
  shows "(y0 + g * (a - 2)) + (- (g * ((a - 1) * b + 1))) * ((0 - k * (a - 1)) / (- (k * a * b))) < y0"
proof -
  have ab: "0 < a * b"
    using assms by simp
  have fr: "(0 - k * (a - 1)) / (- (k * a * b)) = (a - 1) / (a * b)"
    using assms by (simp add: field_simps)
  have "g * (a - 2) - g * ((a - 1) * b + 1) * ((a - 1) / (a * b)) = - (g * (a + b - 1) / (a * b))"
    using assms by (simp add: field_simps)
  moreover have "0 < g * (a + b - 1) / (a * b)"
    using assms ab by simp
  ultimately show ?thesis
    unfolding fr by (simp add: algebra_simps)
qed

lemma zigzag_run:
  "\<exists>c d. filter crossed (pitch_run zigzag_pitch (pitch_init zigzag_pitch)) = [c, d] \<and>
     snd (interpolate c) = 1 / 2 \<and> snd (interpolate d) < 1 / 2"
proof -
  define P where "P = zigzag_pitch"
  define s0 where "s0 = pitch_init P"
  define u where "u = p_vx s0"
  define w where "w = p_vz s0"
  define g where "g = GRAVITY * dt_pitch * dt_pitch"
  have g: "g = 981 / 25000000" "0 < g"
    by (simp_all add: g_def GRAVITY_def dt_pitch_def)
  have init: "p_x s0 = 0" "p_y s0 = 1 / 2" "p_z s0 = 0" "p_t s0 = 0" "p_vy s0 = 0"
    unfolding s0_def P_def by (simp_all add: zigzag_init)
  have om: "omega P = 0"
    unfolding P_def by (rule zigzag_init)
  have V0: "sqrt (p_vx s0 * p_vx s0 + p_vy s0 * p_vy s0 + p_vz s0 * p_vz s0) = 1000000"
    unfolding s0_def P_def by (rule zigzag_init)
  have uw: "sqrt (u * u + w * w) = 1000000"
    using V0 init(5) by (simp add: u_def w_def)
  have w: "0 < w" "w \<le> 25"
    unfolding w_def s0_def P_def by (rule zigzag_vz)+
  have k3: "3 / 1000 \<le> drag_k" "drag_k \<le> 7 / 1000" "0 \<le> drag_k"
    using drag_k_bounds by simp_all
  txt \<open>First pass.\<close>
  define f1 where "f1 = 1 - drag_k * 1000000 * dt_pitch"
  have f1: "- 13 \<le> f1" "f1 \<le> - 5"
    using k3 by (simp_all add: f1_def dt_pitch_def)
  obtain s1 where run0: "pitch_run P s0 = (pitch_record s0, s1) # pitch_run P s1"
    and v1: "p_vx s1 = u * f1" "p_vy s1 = p_vy s0 * f1 - GRAVITY * dt_pitch" "p_vz s1 = w * f1"
    and p1: "p_y s1 = p_y s0 + (p_vy s0 * f1 - GRAVITY * dt_pitch) * dt_pitch"
      "p_z s1 = p_z s0 + w * f1 * dt_pitch" "p_t s1 = p_t s0 + dt_pitch"
    using spinless_pass [OF om _ _ _ V0 _ f1_def] init
    unfolding u_def w_def by (auto simp add: CATCHER_DEPTH_def MAX_SIMULATION_TIME_def)
  define q where "q = w * (- f1)"
  define k where "k = q * dt_pitch"
  have "q \<le> 25 * 13"
    unfolding q_def using w f1 by (intro mult_mono) simp_all
  moreover have "0 < q"
    unfolding q_def using w f1 by (intro mult_pos_pos) simp_all
  ultimately have k: "0 < k" "k \<le> 13 / 20"
    by (simp_all add: k_def dt_pitch_def)
  have z1: "p_z s1 = - k"
    by (simp add: p1 init k_def q_def)
  have y1: "p_y s1 = 1 / 2 - g"
    by (simp add: p1 init g_def)
  have vy1: "p_vy s1 = - (GRAVITY * dt_pitch)"
    by (simp add: v1 init)
  have t1: "p_t s1 = dt_pitch"
    by (simp add: p1 init)
  txt \<open>Second pass.\<close>
  define V1 where "V1 = sqrt (p_vx s1 * p_vx s1 + p_vy s1 * p_vy s1 + p_vz s1 * p_vz s1)"
  have "\<bar>f1\<bar> * sqrt (u * u + w * w) \<le> V1"
    unfolding V1_def v1(1,3) by (rule speed_lower)
  moreover have "5 \<le> \<bar>f1\<bar>"
    using f1 by simp
  ultimately have V1: "5000000 \<le> V1"
    unfolding uw by simp
  have kV1: "3 / 1000 * 5000000 \<le> drag_k * V1"
    using k3 V1 by (intro mult_mono) simp_all
  define f2 where "f2 = 1 - drag_k * V1 * dt_pitch"
  define a where "a = - f2"
  have a: "29 \<le> a"
    using kV1 by (simp add: a_def f2_def dt_pitch_def)
  have f2: "f2 = - a"
    by (simp add: a_def)
  obtain s2 where run1: "pitch_run P s1 = (pitch_record s1, s2) # pitch_run P s2"
    and v2: "p_vx s2 = p_vx s1 * f2" "p_vy s2 = p_vy s1 * f2 - GRAVITY * dt_pitch" "p_vz s2 = p_vz s1 * f2"
    and p2: "p_y s2 = p_y s1 + (p_vy s1 * f2 - GRAVITY * dt_pitch) * dt_pitch"
      "p_z s2 = p_z s1 + p_vz s1 * f2 * dt_pitch" "p_t s2 = p_t s1 + dt_pitch"
  proof -
    have "p_z s1 > - CATCHER_DEPTH"
      using k by (simp add: z1 CATCHER_DEPTH_def)
    moreover have "\<not> p_t s1 > MAX_SIMULATION_TIME"
      by (simp add: t1 dt_pitch_def MAX_SIMULATION_TIME_def)
    moreover have "\<not> p_y s1 \<le> 0"
      by (simp add: y1 g)
    moreover have "V1 \<noteq> 0"
      using V1 by simp
    ultimately show ?thesis
      using spinless_pass [OF om _ _ _ V1_def [symmetric] _ f2_def, of] that by blast
  qed
  have z2: "p_z s2 = k * (a - 1)"
    by (simp add: p2 v1 z1 f2 k_def q_def algebra_simps)
  have y2: "p_y s2 = 1 / 2 + g * (a - 2)"
    by (simp add: p2 vy1 y1 f2 g_def algebra_simps)
  have vy2: "p_vy s2 = GRAVITY * dt_pitch * (a - 1)"
    by (simp add: v2 vy1 f2 algebra_simps)
  have vz2: "p_vz s2 = w * (f1 * f2)" and vx2: "p_vx s2 = u * (f1 * f2)"
    by (simp_all add: v2 v1)
  have t2: "p_t s2 = 2 * dt_pitch"
    by (simp add: p2 t1)
  txt \<open>Third pass.\<close>
  define V2 where "V2 = sqrt (p_vx s2 * p_vx s2 + p_vy s2 * p_vy s2 + p_vz s2 * p_vz s2)"
  have "\<bar>f1 * f2\<bar> * sqrt (u * u + w * w) \<le> V2"
    unfolding V2_def vx2 vz2 by (rule speed_lower)
  moreover have "5 * 29 \<le> \<bar>f1\<bar> * \<bar>f2\<bar>"
    using f1 a by (intro mult_mono) (simp_all add: f2)
  ultimately have V2: "145000000 \<le> V2"
    unfolding uw abs_mult by simp
  have kV2: "3 / 1000 * 145000000 \<le> drag_k * V2"
    using k3 V2 by (intro mult_mono) simp_all
  define f3 where "f3 = 1 - drag_k * V2 * dt_pitch"
  define b where "b = - f3"
  have b: "869 \<le> b"
    using kV2 by (simp add: b_def f3_def dt_pitch_def)
  have f3: "f3 = - b"
    by (simp add: b_def)
  have z2pos: "0 \<le> p_z s2"
    unfolding z2 using k a by (intro mult_nonneg_nonneg) simp_all
  have y2pos: "0 < p_y s2"
  proof -
    have "0 \<le> g * (a - 2)"
      using g a by (intro mult_nonneg_nonneg) simp_all
    then show ?thesis
      by (simp add: y2)
  qed
  obtain s3 where run2: "pitch_run P s2 = (pitch_record s2, s3) # pitch_run P s3"
    and p3: "p_y s3 = p_y s2 + (p_vy s2 * f3 - GRAVITY * dt_pitch) * dt_pitch"
      "p_z s3 = p_z s2 + p_vz s2 * f3 * dt_pitch"
  proof -
    have "p_z s2 > - CATCHER_DEPTH"
      using z2pos by (simp add: CATCHER_DEPTH_def)
    moreover have "\<not> p_t s2 > MAX_SIMULATION_TIME"
      by (simp add: t2 dt_pitch_def MAX_SIMULATION_TIME_def)
    moreover have "\<not> p_y s2 \<le> 0"
      using y2pos by simp
    moreover have "V2 \<noteq> 0"
      using V2 by simp
    ultimately show ?thesis
      using spinless_pass [OF om _ _ _ V2_def [symmetric] _ f3_def, of] that by blast
  qed
  have z32: "p_z s3 - p_z s2 = - (k * a * b)"
    by (simp add: p3 vz2 f2 f3 k_def q_def algebra_simps)
  have y32: "p_y s3 - p_y s2 = - (g * ((a - 1) * b + 1))"
    by (simp add: p3 vy2 f3 g_def algebra_simps)
  have ab: "28 * 868 \<le> (a - 1) * (b - 1)"
    using a b by (intro mult_mono) simp_all
  have y3: "p_y s3 = 1 / 2 - g * ((a - 1) * (b - 1) + 2)"
    using y32 y2 by (simp add: algebra_simps)
  have y3neg: "p_y s3 \<le> 0"
  proof -
    have "g * 24306 \<le> g * ((a - 1) * (b - 1) + 2)"
      using ab g(2) by (intro mult_left_mono) simp_all
    then show ?thesis
      unfolding y3 by (simp add: g(1))
  qed
  have z3: "p_z s3 = - (k * (a * (b - 1) + 1))"
    using z32 z2 by (simp add: algebra_simps)
  have z3neg: "p_z s3 < 0"
  proof -
    have "0 \<le> a * (b - 1)"
      using a b by (intro mult_nonneg_nonneg) simp_all
    then have "0 < k * (a * (b - 1) + 1)"
      using k by (intro mult_pos_pos) simp_all
    then show ?thesis
      by (simp add: z3)
  qed
  have run3: "pitch_run P s3 = []"
    using y3neg by (intro pitch_run_break) simp
  have run: "pitch_run P s0 = [(pitch_record s0, s1), (pitch_record s1, s2), (pitch_record s2, s3)]"
    by (simp add: run0 run1 run2 run3)
  have c0: "crossed (pitch_record s0, s1)"
    using k by (simp add: crossed_def pitch_record_fields init z1)
  have c1: "\<not> crossed (pitch_record s1, s2)"
    using k by (simp add: crossed_def pitch_record_fields z1)
  have c2: "crossed (pitch_record s2, s3)"
    using z2pos z3neg by (simp add: crossed_def pitch_record_fields)
  have filt: "filter crossed (pitch_run P s0) = [(pitch_record s0, s1), (pitch_record s2, s3)]"
    by (simp add: run c0 c1 c2)
  have i0: "snd (interpolate (pitch_record s0, s1)) = 1 / 2"
    by (simp add: interpolate_def Let_def pitch_record_fields init)
  have "snd (interpolate (pitch_record s2, s3)) =
      p_y s2 + (p_y s3 - p_y s2) * ((0 - p_z s2) / (p_z s3 - p_z s2))"
    by (simp add: interpolate_def Let_def pitch_record_fields)
  also have "\<dots> = (1 / 2 + g * (a - 2)) + (- (g * ((a - 1) * b + 1))) * ((0 - k * (a - 1)) / (- (k * a * b)))"
    by (simp only: y32 z32, simp only: y2 z2)
  also have "\<dots> < 1 / 2"
    using g(2) k(1) a b by (intro interp_below) simp_all
  finally have i2: "snd (interpolate (pitch_record s2, s3)) < 1 / 2" .
  show ?thesis
    using filt i0 i2 unfolding s0_def P_def by blast
qed

subsection \<open>The solver\<close>

declare solve_calls.simps [simp del] solve_loop.simps [simp del]

lemma solve_calls_bound: "solve_calls params tX tY i a \<le> 10 - i"
proof (induction params tX tY i a rule: solve_calls.induct)
  case (1 params tX tY i hA vA)
  show ?case
  proof (cases "i < 10")
    case False
    then show ?thesis by (subst solve_calls.simps) simp
  next
    case True
    show ?thesis
    proof (cases "plateCrossing (calculatePitchTrajectory (params\<lparr>hAngle := hA, vAngle := vA\<rparr>))")
      case NaN
      with True show ?thesis by (subst solve_calls.simps) simp
    next
      case (Val c)
      obtain ax ay where c: "c = (ax, ay)" by (cases c)
      show ?thesis
      proof (cases "\<bar>tX - ax\<bar> < 0.0005 \<and> \<bar>tY - ay\<bar> < 0.0005")
        case conv: True
        with True Val c show ?thesis by (subst solve_calls.simps) simp
      next
        case nconv: False
        have "solve_calls params tX tY (i + 1) (hA + (tX - ax) * 2.5, vA + (tY - ay) * 2.5)
            \<le> 10 - (i + 1)"
          using "1.IH" [OF True Val [unfolded c] refl nconv] .
        with True Val c nconv show ?thesis by (subst solve_calls.simps) auto
      qed
    qed
  qed
qed




subsection \<open>Pitches of one step and the solver\<close>





























section \<open>Properties\<close>

subsection \<open>Termination\<close>

text \<open>
  Claim C1. Every call of the three entry points returns: the three loops are defined
  as total functions (their termination is proved with the time and the counter as
  measures), no result type has an error value, and the number of passes is bounded.
  The batting loop records one sample per pass and makes at most 2000 passes (20 s at
  0.01 s), ending at time \<open>dt\<close> times that number; a pitch has at most 2503 samples
  (a pass is entered at most 2502 times, by the 5 s failsafe, and one sample follows
  the loop); the solver calls the integrator at most 10 times.
\<close>

theorem all_loops_bounded:
  "length (points (calculateTrajectory velocityKmh launchAngleDeg sprayAngleDeg windSpeedMs windDirectionDeg)) \<le> 2000 \<and>
   hangTime (calculateTrajectory velocityKmh launchAngleDeg sprayAngleDeg windSpeedMs windDirectionDeg) =
     real (length (points (calculateTrajectory velocityKmh launchAngleDeg sprayAngleDeg windSpeedMs windDirectionDeg))) * dt_bat \<and>
   length (pitch_points (calculatePitchTrajectory params)) \<le> 2503 \<and>
   integrator_calls params tX tY \<le> 10"
proof -
  let ?s0 = "bat_init velocityKmh launchAngleDeg sprayAngleDeg"
  have "b_t (bat_loop (wind_x windSpeedMs windDirectionDeg) (wind_z windSpeedMs windDirectionDeg) ?s0) =
      real (length (b_points (bat_loop (wind_x windSpeedMs windDirectionDeg) (wind_z windSpeedMs windDirectionDeg) ?s0))) * dt_bat \<and>
    length (b_points (bat_loop (wind_x windSpeedMs windDirectionDeg) (wind_z windSpeedMs windDirectionDeg) ?s0)) \<le> 2000"
    by (rule bat_loop_count) (simp_all add: bat_init_fields)
  then have bat: "length (points (calculateTrajectory velocityKmh launchAngleDeg sprayAngleDeg windSpeedMs windDirectionDeg)) \<le> 2000 \<and>
   hangTime (calculateTrajectory velocityKmh launchAngleDeg sprayAngleDeg windSpeedMs windDirectionDeg) =
     real (length (points (calculateTrajectory velocityKmh launchAngleDeg sprayAngleDeg windSpeedMs windDirectionDeg))) * dt_bat"
    by (simp add: calculateTrajectory_def bat_final_def Let_def)
  have pitch: "length (pitch_points (calculatePitchTrajectory params)) \<le> 2503"
  proof (cases "velocity params \<le> 0.1")
    case True
    then show ?thesis by (simp add: calculatePitchTrajectory_def)
  next
    case False
    then show ?thesis using pitch_loop_count [of params] by (simp add: calculatePitchTrajectory_def)
  qed
  have "integrator_calls params tX tY \<le> 10"
    using solve_calls_bound [of params tX tY 0 "solve_init params tX tY"]
    by (simp add: integrator_calls_def)
  with bat pitch show ?thesis by simp
qed

subsection \<open>Plate crossing\<close>

text \<open>
  Claim C2, as amended. The plate crossing that \<^verbatim>\<open>calculatePitchTrajectory\<close> returns is
  the linear interpolation at \<open>z = 0\<close> over the last step of the call in which \<open>z\<close>
  went from at least 0 to below 0: every such step overwrites \<^verbatim>\<open>plateCrossing\<close>. When the
  call has no such step, the returned crossing is the position of the final sample.
\<close>

theorem plate_crossing_last:
  "plateCrossing (calculatePitchTrajectory params) =
    (case filter crossed (pitch_steps params) of
       [] \<Rightarrow> sample_xy (last (pitch_points (calculatePitchTrajectory params)))
     | c # cs \<Rightarrow> Val (interpolate (last (c # cs))))"
proof (cases "velocity params \<le> 0.1")
  case True
  then show ?thesis
    by (simp add: calculatePitchTrajectory_def pitch_steps_def)
next
  case False
  then show ?thesis
    by (simp add: calculatePitchTrajectory_def pitch_steps_def pitch_result_crossing
        pitch_loop_crossing pitch_init_fields split: list.splits)
qed

text \<open>
  Claim C2 as stated, with the crossing captured once at the first crossing, fails for
  \<open>zigzag_pitch\<close>. The call makes three passes. In the first \<open>z\<close> goes from 0 to below 0,
  and the interpolation there is the release point, at height 0.5 m. In the second \<open>z\<close>
  comes back to at least 0. In the third \<open>z\<close> goes below 0 again and the ball reaches the
  ground; the interpolation over this step is below 0.5 m, and it is the one returned.
\<close>

theorem plate_crossing_counterexample: "\<not> crossing_is_first zigzag_pitch"
proof -
  obtain c d where filt: "filter crossed (pitch_run zigzag_pitch (pitch_init zigzag_pitch)) = [c, d]"
    and cd: "snd (interpolate c) = 1 / 2" "snd (interpolate d) < 1 / 2"
    using zigzag_run by blast
  have vel: "\<not> velocity zigzag_pitch \<le> 0.1"
    by (simp add: zigzag_pitch_def)
  have "p_plateCrossing (exit_state (pitch_loop zigzag_pitch (pitch_init zigzag_pitch))) = Some (interpolate d)"
    unfolding pitch_loop_crossing filt by simp
  then have "plateCrossing (calculatePitchTrajectory zigzag_pitch) = Val (interpolate d)"
    using vel by (simp add: calculatePitchTrajectory_def pitch_result_crossing)
  moreover have "interpolate d \<noteq> interpolate c"
    using cd by auto
  ultimately show ?thesis
    using vel by (simp add: crossing_is_first_def pitch_steps_def filt)
qed

subsection \<open>Round trip of the solver\<close>




subsection \<open>Sample times\<close>

text \<open>
  Claim C4, as amended. In a batted-ball trajectory each sample is exactly 0.01 s after
  the one before it. In a pitch trajectory each sample is exactly 0.002 s after the one
  before it, with one exception: when the loop is left by the ground check or the 5 s
  failsafe (the sample is at \<open>z > -1.5\<close> and has \<open>y \<le> 0\<close> or \<open>t > 5\<close>), the sample
  pushed after the loop repeats the last sample of the loop, time included.
\<close>

theorem sample_times:
  "successively (\<lambda>p q. pt q = pt p + dt_bat)
     (points (calculateTrajectory velocityKmh launchAngleDeg sprayAngleDeg windSpeedMs windDirectionDeg)) \<and>
   (successively (\<lambda>a b. sample_t b = sample_t a + dt_pitch)
      (pitch_points (calculatePitchTrajectory params)) \<or>
    (\<exists>qs q. pitch_points (calculatePitchTrajectory params) = qs @ [Sample q, Sample q] \<and>
       successively (\<lambda>a b. sample_t b = sample_t a + dt_pitch) (qs @ [Sample q]) \<and>
       pz q > - CATCHER_DEPTH \<and> (py q \<le> 0 \<or> pt q > MAX_SIMULATION_TIME)))"
proof -
  have "bat_spaced (b_points (bat_loop (wind_x windSpeedMs windDirectionDeg) (wind_z windSpeedMs windDirectionDeg)
      (bat_init velocityKmh launchAngleDeg sprayAngleDeg)))"
    by (rule bat_loop_spaced) (simp_all add: bat_init_fields bat_spaced_def)
  then have "successively (\<lambda>p q. pt q = pt p + dt_bat)
     (points (calculateTrajectory velocityKmh launchAngleDeg sprayAngleDeg windSpeedMs windDirectionDeg))"
    by (simp add: calculateTrajectory_def bat_final_def Let_def bat_spaced_def)
  then show ?thesis
    using pitch_times [of params] by (simp add: pitch_spaced_def)
qed

text \<open>
  Claim C4 as stated fails: the default pitch released at height 0 stops at the ground
  check of the first pass, and its two samples have the same time.
\<close>

theorem sample_times_counterexample:
  "0 + 1 < length (pitch_points (calculatePitchTrajectory (default_pitch\<lparr>releaseHeight := 0\<rparr>))) \<and>
   \<not> sample_t (pitch_points (calculatePitchTrajectory (default_pitch\<lparr>releaseHeight := 0\<rparr>)) ! 0)
     < sample_t (pitch_points (calculatePitchTrajectory (default_pitch\<lparr>releaseHeight := 0\<rparr>)) ! (0 + 1))"
proof -
  have "pitch_points (calculatePitchTrajectory (default_pitch\<lparr>releaseHeight := 0\<rparr>)) =
    [Sample (pitch_sample (pitch_init (default_pitch\<lparr>releaseHeight := 0\<rparr>))),
     Sample (pitch_sample (pitch_init (default_pitch\<lparr>releaseHeight := 0\<rparr>)))]"
    by (rule pitch_on_ground)
      (simp_all add: default_pitch_def MOUND_DISTANCE_def CATCHER_DEPTH_def)
  then show ?thesis by simp
qed

subsection \<open>Degenerate pitch\<close>

text \<open>
  Claim C5. For parameters with velocity at most 0.1 km/h, \<^verbatim>\<open>calculatePitchTrajectory\<close>
  returns, without entering the loop, the trajectory whose only sample is the release
  point \<open>(releaseSide / 100, releaseHeight, 18.44 - extension / 100)\<close> at time 0 with
  zero breaks, with distance 0 and hang time 0; the final position and the plate
  crossing are the release point as well.
\<close>

theorem pitch_degenerate:
  assumes "velocity params \<le> 0.1"
  shows "calculatePitchTrajectory params =
     \<lparr>pitch_points =
        [Sample \<lparr>px = releaseSide params / 100, py = releaseHeight params,
                 pz = 18.44 - extension params / 100, pt = 0, breakX = 0, breakY = 0\<rparr>],
      pitch_distance = Val 0,
      pitch_maxHeight = releaseHeight params,
      pitch_hangTime = 0,
      finalPosition = Val (releaseSide params / 100, releaseHeight params),
      plateCrossing = Val (releaseSide params / 100, releaseHeight params)\<rparr>"
  using assms by (simp add: calculatePitchTrajectory_def MOUND_DISTANCE_def)

theorem pitch_degenerate_witness:
  "velocity (default_pitch\<lparr>velocity := 0\<rparr>) \<le> 0.1 \<and>
   pitch_points (calculatePitchTrajectory (default_pitch\<lparr>velocity := 0\<rparr>)) =
     [Sample \<lparr>px = 0.505, py = 1.8, pz = 16.611, pt = 0, breakX = 0, breakY = 0\<rparr>] \<and>
   pitch_distance (calculatePitchTrajectory (default_pitch\<lparr>velocity := 0\<rparr>)) = Val 0 \<and>
   pitch_hangTime (calculatePitchTrajectory (default_pitch\<lparr>velocity := 0\<rparr>)) = 0"
proof -
  have v: "velocity (default_pitch\<lparr>velocity := 0\<rparr>) \<le> 0.1"
    by simp
  show ?thesis
    using v pitch_degenerate [OF v] by (simp add: default_pitch_def)
qed

subsection \<open>Carry distance\<close>

text \<open>
  Claim C6. The distance that \<^verbatim>\<open>calculateTrajectory\<close> returns is the horizontal range
  \<open>sqrt (x\<^sup>2 + z\<^sup>2)\<close> of the position at the end of the first pass of the loop that
  brought the height to 0 or below (the height is clamped in that pass, so these are
  the passes that end with \<open>y \<le> 0\<close>); no later pass changes it. When no pass does,
  it is the horizontal range of the position at which the loop stopped.
\<close>

theorem distance_first_contact:
  "distance (calculateTrajectory velocityKmh launchAngleDeg sprayAngleDeg windSpeedMs windDirectionDeg) =
    (case find (\<lambda>u. b_y u \<le> 0)
            (bat_run (wind_x windSpeedMs windDirectionDeg) (wind_z windSpeedMs windDirectionDeg)
               (bat_init velocityKmh launchAngleDeg sprayAngleDeg)) of
       Some u \<Rightarrow> sqrt (b_x u * b_x u + b_z u * b_z u)
     | None \<Rightarrow>
         sqrt (b_x (bat_final velocityKmh launchAngleDeg sprayAngleDeg windSpeedMs windDirectionDeg) *
               b_x (bat_final velocityKmh launchAngleDeg sprayAngleDeg windSpeedMs windDirectionDeg) +
               b_z (bat_final velocityKmh launchAngleDeg sprayAngleDeg windSpeedMs windDirectionDeg) *
               b_z (bat_final velocityKmh launchAngleDeg sprayAngleDeg windSpeedMs windDirectionDeg)))"
proof -
  have "distance (calculateTrajectory velocityKmh launchAngleDeg sprayAngleDeg windSpeedMs windDirectionDeg) =
      bat_distance (bat_final velocityKmh launchAngleDeg sprayAngleDeg windSpeedMs windDirectionDeg)"
    by (simp add: calculateTrajectory_def Let_def bat_distance_def)
  also have "\<dots> =
    (case find (\<lambda>u. b_y u \<le> 0)
            (bat_run (wind_x windSpeedMs windDirectionDeg) (wind_z windSpeedMs windDirectionDeg)
               (bat_init velocityKmh launchAngleDeg sprayAngleDeg)) of
       Some u \<Rightarrow> range_xz u
     | None \<Rightarrow> range_xz (bat_final velocityKmh launchAngleDeg sprayAngleDeg windSpeedMs windDirectionDeg))"
    unfolding bat_final_def by (rule bat_distance_first_contact) (simp add: bat_init_fields)
  finally show ?thesis
    by (simp add: range_xz_def split: option.splits)
qed

subsection \<open>Wall reflection\<close>

text \<open>
  Claim C7. Let the position after the Euler step be at \<open>z > 60\<close> with height in
  \<open>[0, 4]\<close>, let \<open>seg\<close> be the first segment of \<^verbatim>\<open>WALL_SEGMENTS\<close> that the step from
  \<open>(prevX, prevZ)\<close> intersects, at \<open>(ix, iz)\<close>, and let the horizontal velocity oppose
  the normal \<open>(nx, nz)\<close> of \<open>seg\<close>. Then the wall stage of the pass reflects the
  horizontal velocity about the normal and scales it by 0.7, scales the vertical
  velocity by 0.8, and moves the position to the intersection plus 0.2 along the
  normal; the later segments are not looked at. The normal is perpendicular to \<open>seg\<close>,
  has length 1 and does not point away from the origin, and the horizontal speed after
  the reflection is 0.7 times the speed before.
\<close>

theorem wall_reflection:
  assumes segs: "WALL_SEGMENTS = pre @ seg # post"
    and none: "\<forall>g\<in>set pre.
        getLineIntersection prevX prevZ (b_x s) (b_z s) (x1 g) (z1 g) (x2 g) (z2 g) = None"
    and hit: "getLineIntersection prevX prevZ (b_x s) (b_z s) (x1 seg) (z1 seg) (x2 seg) (z2 seg)
        = Some (ix, iz)"
    and normal: "wall_normal seg = (nx, nz)"
    and zone: "b_z s > 60" "0 \<le> b_y s" "b_y s \<le> 4"
    and opposes: "b_vx s * nx + b_vz s * nz < 0"
  shows "wall_collision prevX prevZ s =
      s\<lparr>b_vx := (b_vx s - 2 * (b_vx s * nx + b_vz s * nz) * nx) * 0.7,
        b_vz := (b_vz s - 2 * (b_vx s * nx + b_vz s * nz) * nz) * 0.7,
        b_vy := b_vy s * 0.8,
        b_x := ix + nx * 0.2,
        b_z := iz + nz * 0.2\<rparr> \<and>
    sqrt (b_vx (wall_collision prevX prevZ s) * b_vx (wall_collision prevX prevZ s) +
          b_vz (wall_collision prevX prevZ s) * b_vz (wall_collision prevX prevZ s))
      = 0.7 * sqrt (b_vx s * b_vx s + b_vz s * b_vz s) \<and>
    nx * (x2 seg - x1 seg) + nz * (z2 seg - z1 seg) = 0 \<and>
    nx * nx + nz * nz = 1 \<and>
    nx * ((x1 seg + x2 seg) / 2) + nz * ((z1 seg + z2 seg) / 2) \<le> 0"
proof -
  have mem: "seg \<in> set WALL_SEGMENTS"
    by (simp add: segs)
  have perp: "nx * (x2 seg - x1 seg) + nz * (z2 seg - z1 seg) = 0"
    using normal by (rule wall_normal_perp)
  have unit: "nx * nx + nz * nz = 1"
    using mem normal by (rule wall_normal_unit)
  have inward: "nx * ((x1 seg + x2 seg) / 2) + nz * ((z1 seg + z2 seg) / 2) \<le> 0"
    using normal by (rule wall_normal_inward)
  have "wall_collision prevX prevZ s = wall_loop prevX prevZ (pre @ seg # post) s"
    using zone by (simp add: wall_collision_def WALL_HEIGHT_def segs)
  also have "\<dots> = wall_reflect seg (ix, iz) s"
    using none hit by (rule wall_loop_first)
  also have "\<dots> =
      s\<lparr>b_vx := (b_vx s - 2 * (b_vx s * nx + b_vz s * nz) * nx) * COR_WALL,
        b_vz := (b_vz s - 2 * (b_vx s * nx + b_vz s * nz) * nz) * COR_WALL,
        b_vy := b_vy s * 0.8,
        b_x := ix + nx * 0.2,
        b_z := iz + nz * 0.2\<rparr>"
    using opposes by (simp add: wall_reflect_def normal Let_def)
  finally have eq: "wall_collision prevX prevZ s =
      s\<lparr>b_vx := (b_vx s - 2 * (b_vx s * nx + b_vz s * nz) * nx) * COR_WALL,
        b_vz := (b_vz s - 2 * (b_vx s * nx + b_vz s * nz) * nz) * COR_WALL,
        b_vy := b_vy s * 0.8,
        b_x := ix + nx * 0.2,
        b_z := iz + nz * 0.2\<rparr>" .
  have speed: "sqrt (b_vx (wall_collision prevX prevZ s) * b_vx (wall_collision prevX prevZ s) +
          b_vz (wall_collision prevX prevZ s) * b_vz (wall_collision prevX prevZ s))
      = 0.7 * sqrt (b_vx s * b_vx s + b_vz s * b_vz s)"
    unfolding eq using reflect_speed [OF unit, of "b_vx s" "b_vz s"] by simp
  show ?thesis
    using eq speed perp unit inward by (simp add: COR_WALL_def)
qed

theorem wall_reflection_witness:
  "WALL_SEGMENTS = [\<lparr>x1 = -70.71, z1 = 70.71, x2 = -42.1, z2 = 101.6\<rparr>] @ left_center #
      [\<lparr>x1 = 0, z1 = 122, x2 = 42.1, z2 = 101.6\<rparr>, \<lparr>x1 = 42.1, z1 = 101.6, x2 = 70.71, z2 = 70.71\<rparr>] \<and>
   getLineIntersection (-21.05) 110 (b_x wall_ball) (b_z wall_ball)
      (x1 left_center) (z1 left_center) (x2 left_center) (z2 left_center) = Some (-21.05, 111.8) \<and>
   b_vx wall_ball * fst (wall_normal left_center) + b_vz wall_ball * snd (wall_normal left_center) < 0 \<and>
   sqrt (b_vx (wall_collision (-21.05) 110 wall_ball) * b_vx (wall_collision (-21.05) 110 wall_ball) +
         b_vz (wall_collision (-21.05) 110 wall_ball) * b_vz (wall_collision (-21.05) 110 wall_ball)) = 21"
proof -
  let ?pre = "[\<lparr>x1 = -70.71, z1 = 70.71, x2 = -42.1, z2 = 101.6\<rparr>]"
  let ?post = "[\<lparr>x1 = 0, z1 = 122, x2 = 42.1, z2 = 101.6\<rparr>, \<lparr>x1 = 42.1, z1 = 101.6, x2 = 70.71, z2 = 70.71\<rparr>]"
  have segs: "WALL_SEGMENTS = ?pre @ left_center # ?post"
    by (simp add: WALL_SEGMENTS_def left_center_def)
  have none: "\<forall>g\<in>set ?pre.
      getLineIntersection (-21.05) 110 (b_x wall_ball) (b_z wall_ball) (x1 g) (z1 g) (x2 g) (z2 g) = None"
    by (simp add: getLineIntersection_def Let_def wall_ball_def)
  have hit: "getLineIntersection (-21.05) 110 (b_x wall_ball) (b_z wall_ball)
      (x1 left_center) (z1 left_center) (x2 left_center) (z2 left_center) = Some (-21.05, 111.8)"
    by (simp add: getLineIntersection_def Let_def wall_ball_def left_center_def)
  have normal: "wall_normal left_center = (fst (wall_normal left_center), snd (wall_normal left_center))"
    by simp
  have zone: "b_z wall_ball > 60" "0 \<le> b_y wall_ball" "b_y wall_ball \<le> 4"
    by (simp_all add: wall_ball_def)
  have opposes: "b_vx wall_ball * fst (wall_normal left_center) + b_vz wall_ball * snd (wall_normal left_center) < 0"
    by (simp add: left_center_normal wall_ball_def)
  have before: "sqrt (b_vx wall_ball * b_vx wall_ball + b_vz wall_ball * b_vz wall_ball) = 30"
    by (simp add: wall_ball_def)
  have "sqrt (b_vx (wall_collision (-21.05) 110 wall_ball) * b_vx (wall_collision (-21.05) 110 wall_ball) +
         b_vz (wall_collision (-21.05) 110 wall_ball) * b_vz (wall_collision (-21.05) 110 wall_ball))
      = 0.7 * sqrt (b_vx wall_ball * b_vx wall_ball + b_vz wall_ball * b_vz wall_ball)"
    using wall_reflection [OF segs none hit normal zone opposes] by (elim conjE)
  also have "\<dots> = 21"
    by (simp only: before)
  finally show ?thesis
    using segs hit opposes by (intro conjI)
qed

subsection \<open>Rolling\<close>




subsection \<open>Ground invariant\<close>

text \<open>
  Claim C9. The samples of a batted-ball trajectory are never below the ground: the
  list is not empty and every sample has \<open>y \<ge> 0\<close>.
\<close>

theorem ground_invariant:
  "points (calculateTrajectory velocityKmh launchAngleDeg sprayAngleDeg windSpeedMs windDirectionDeg) \<noteq> [] \<and>
   list_all (\<lambda>p. 0 \<le> py p)
     (points (calculateTrajectory velocityKmh launchAngleDeg sprayAngleDeg windSpeedMs windDirectionDeg))"
proof -
  let ?wx = "wind_x windSpeedMs windDirectionDeg" and ?wz = "wind_z windSpeedMs windDirectionDeg"
  let ?s0 = "bat_init velocityKmh launchAngleDeg sprayAngleDeg"
  let ?I = "\<lambda>u::bstate. 0 \<le> b_y u \<and> list_all (\<lambda>p. 0 \<le> py p) (b_points u)"
  have "?I (bat_loop ?wx ?wz ?s0)"
  proof (rule bat_loop_invariant [where I = ?I])
    show "?I ?s0" by (simp add: bat_init_fields)
  next
    fix u :: bstate assume "?I u"
    then show "?I (fst (bat_body ?wx ?wz u))"
      by (simp add: bat_body_y bat_body_points)
  qed
  moreover have "b_points (bat_loop ?wx ?wz ?s0) \<noteq> []"
    by (rule bat_loop_points_nonempty) (simp add: bat_init_fields maxTime_def)
  ultimately show ?thesis
    by (simp add: calculateTrajectory_def bat_final_def Let_def)
qed

subsection \<open>Degenerate solver call\<close>

text \<open>
  Claim C10. For parameters with velocity at most 0.1 km/h and any target,
  \<^verbatim>\<open>solvePitchAngles\<close> returns the \<^verbatim>\<open>hAngle\<close> and \<^verbatim>\<open>vAngle\<close> of its input and makes no call
  of the pitch integrator.
\<close>

theorem solver_degenerate:
  assumes "velocity params \<le> 0.1"
  shows "solvePitchAngles params tX tY = Val (hAngle params, vAngle params) \<and>
    integrator_calls params tX tY = 0"
  using assms by (simp add: solvePitchAngles_def integrator_calls_def)

theorem solver_degenerate_witness:
  "velocity (default_pitch\<lparr>velocity := 0\<rparr>) \<le> 0.1 \<and>
   solvePitchAngles (default_pitch\<lparr>velocity := 0\<rparr>) 0 0.76 = Val (2.2, -2.3) \<and>
   integrator_calls (default_pitch\<lparr>velocity := 0\<rparr>) 0 0.76 = 0"
proof -
  have v: "velocity (default_pitch\<lparr>velocity := 0\<rparr>) \<le> 0.1"
    by simp
  show ?thesis
    using v solver_degenerate [OF v, of 0 "0.76"] by (simp add: default_pitch_def)
qed

end
